theory Spec2Isabelle
  imports Main "HOL-Library.Word" "HOL-Library.Char_ord" "HOL-Library.List_Lexorder"
    "HOL-Library.Signed_Division"
begin

chapter \<open>Mython: the lexer and the runtime, embedded from the C++ sources\<close>

section \<open>The lexer (lexer.cpp)\<close>

subsection \<open>Tokens\<close>

text \<open>
  The alternatives of \<^verbatim>\<open>parse::Token\<close>. Their names carry the suffix \<open>Tok\<close>, since
  several of them (\<open>Number\<close>, \<open>String\<close>, \<open>Print\<close>, \<open>And\<close>, \<open>Not\<close>, ...) are also names
  of runtime objects and of AST nodes.
\<close>

datatype Token =
    NumberTok int
  | IdTok string
  | StringTok string
  | CharTok char
  | ClassTok | ReturnTok | IfTok | ElseTok | DefTok | NewlineTok | PrintTok
  | IndentTok | DedentTok | AndTok | OrTok | NotTok | EqTok | NotEqTok
  | LessOrEqTok | GreaterOrEqTok | NoneTok | TrueTok | FalseTok | EofTok

subsection \<open>The input stream\<close>

text \<open>
  A \<^verbatim>\<open>std::istream\<close> as the lexer uses it: the characters not yet extracted and
  the two state flags that the unformatted input functions set. A stream is good when
  neither flag is set; every input function starts with a sentry that sets \<open>failbit\<close>
  and does nothing else on a stream that is not good.
\<close>

record istream =
  chars :: string
  eofbit :: bool
  failbit :: bool

definition good :: "istream \<Rightarrow> bool" where
  "good s = (\<not> eofbit s \<and> \<not> failbit s)"

text \<open>\<^verbatim>\<open>peek()\<close>: \<open>None\<close> stands for \<^verbatim>\<open>traits_type::eof()\<close>.\<close>

definition istream_peek :: "istream \<Rightarrow> char option \<times> istream" where
  "istream_peek s =
     (if good s then
        (case chars s of
           [] \<Rightarrow> (None, s\<lparr>eofbit := True\<rparr>)
         | c # cs \<Rightarrow> (Some c, s))
      else (None, s\<lparr>failbit := True\<rparr>))"

text \<open>\<^verbatim>\<open>get(c)\<close> and \<^verbatim>\<open>get()\<close>: on failure nothing is stored.\<close>

definition istream_get :: "istream \<Rightarrow> char option \<times> istream" where
  "istream_get s =
     (if good s then
        (case chars s of
           [] \<Rightarrow> (None, s\<lparr>eofbit := True, failbit := True\<rparr>)
         | c # cs \<Rightarrow> (Some c, s\<lparr>chars := cs\<rparr>))
      else (None, s\<lparr>failbit := True\<rparr>))"

text \<open>\<^verbatim>\<open>putback(c)\<close> clears \<open>eofbit\<close> first, then needs a stream that is good.\<close>

definition istream_putback :: "char \<Rightarrow> istream \<Rightarrow> istream" where
  "istream_putback c s =
     (if failbit s then s\<lparr>eofbit := False\<rparr>
      else s\<lparr>eofbit := False, chars := c # chars s\<rparr>)"

text \<open>
  \<^verbatim>\<open>std::getline(input, s)\<close>, whose string the lexer throws away: the characters up
  to and including the next newline are extracted; reaching the end sets \<open>eofbit\<close>, and
  extracting nothing sets \<open>failbit\<close>.
\<close>

definition istream_getline :: "istream \<Rightarrow> istream" where
  "istream_getline s =
     (if good s then
        (if chars s = [] then s\<lparr>eofbit := True, failbit := True\<rparr>
         else if CHR 0x0A \<in> set (chars s)
         then s\<lparr>chars := tl (dropWhile (\<lambda>c. c \<noteq> CHR 0x0A) (chars s))\<rparr>
         else s\<lparr>chars := [], eofbit := True\<rparr>)
      else s\<lparr>failbit := True\<rparr>)"

text \<open>
  \<^verbatim>\<open>char ch = input_.peek();\<close> narrows the \<^verbatim>\<open>int\<close> to a \<^verbatim>\<open>char\<close>: the end of input
  becomes the byte \<open>0xFF\<close>. With a signed \<^verbatim>\<open>char\<close> the test
  \<^verbatim>\<open>ch == traits_type::eof()\<close> then holds exactly for that byte.
\<close>

definition narrow :: "char option \<Rightarrow> char" where
  "narrow r = (case r of None \<Rightarrow> CHR 0xFF | Some c \<Rightarrow> c)"

definition is_eof :: "char \<Rightarrow> bool" where
  "is_eof ch = (ch = CHR 0xFF)"

subsection \<open>Character classes (the C locale)\<close>

definition isdigit :: "char \<Rightarrow> bool" where
  "isdigit c = (CHR ''0'' \<le> c \<and> c \<le> CHR ''9'')"

definition isalpha :: "char \<Rightarrow> bool" where
  "isalpha c = ((CHR ''a'' \<le> c \<and> c \<le> CHR ''z'') \<or> (CHR ''A'' \<le> c \<and> c \<le> CHR ''Z''))"

definition isalnum :: "char \<Rightarrow> bool" where
  "isalnum c = (isalpha c \<or> isdigit c)"

subsection \<open>The lexer's state and its errors\<close>

text \<open>
  The members of \<^verbatim>\<open>parse::Lexer\<close>; a member \<^verbatim>\<open>x_\<close> of the source is the field
  \<open>x_m\<close> here. The two indentation counters are natural numbers: the source only
  decrements \<^verbatim>\<open>indent_pos_\<close> where it is positive. The lexer throws nothing itself: the only
  exception is the one of \<^verbatim>\<open>std::stoi\<close>; a failed \<^verbatim>\<open>assert\<close> aborts the process, and
  reading a variable that was never written is undefined behaviour.
\<close>

record Lexer =
  input_m :: istream
  current_token_m :: Token
  begin_m :: bool
  indents_m :: nat
  indent_pos_m :: nat

datatype lex_failure =
    StoiInvalidArgument
  | StoiOutOfRange
  | AssertAbort
  | UninitializedRead

subsection \<open>The helper scanners\<close>

definition PassString :: "Lexer \<Rightarrow> Lexer" where
  "PassString l = l\<lparr>input_m := istream_getline (input_m l), begin_m := True, indents_m := 0\<rparr>"

function PassComment :: "istream \<Rightarrow> istream" where
  "PassComment s =
     (case istream_get s of
        (None, s') \<Rightarrow> s'
      | (Some c, s') \<Rightarrow>
          if c = CHR 0x0A then istream_putback c s' else PassComment s')"
  by pat_completeness auto
termination
  by (relation "measure (\<lambda>s. length (chars s))")
     (auto simp: istream_get_def split: if_splits list.splits)

declare PassComment.simps [simp del]

function CountSpaces_loop :: "istream \<Rightarrow> nat \<Rightarrow> istream \<times> nat" where
  "CountSpaces_loop s spaces_amount =
     (case istream_get s of
        (None, s') \<Rightarrow> (s', spaces_amount)
      | (Some c, s') \<Rightarrow>
          if c = CHR '' '' then CountSpaces_loop s' (spaces_amount + 1)
          else (istream_putback c s', spaces_amount))"
  by pat_completeness auto
termination
  by (relation "measure (\<lambda>(s, n). length (chars s))")
     (auto simp: istream_get_def split: if_splits list.splits)

declare CountSpaces_loop.simps [simp del]

definition CountSpaces :: "Lexer \<Rightarrow> Lexer" where
  "CountSpaces l =
     (case CountSpaces_loop (input_m l) 0 of
        (s', spaces_amount) \<Rightarrow>
          if begin_m l then l\<lparr>input_m := s', indents_m := spaces_amount div 2\<rparr>
          else l\<lparr>input_m := s'\<rparr>)"

function ParseNumber_loop :: "istream \<Rightarrow> string \<Rightarrow> istream \<times> string" where
  "ParseNumber_loop s number =
     (case istream_get s of
        (None, s') \<Rightarrow> (s', number)
      | (Some c, s') \<Rightarrow>
          if isdigit c then ParseNumber_loop s' (number @ [c])
          else (istream_putback c s', number))"
  by pat_completeness auto
termination
  by (relation "measure (\<lambda>(s, n). length (chars s))")
     (auto simp: istream_get_def split: if_splits list.splits)

declare ParseNumber_loop.simps [simp del]

text \<open>
  \<^verbatim>\<open>std::stoi\<close> on a run of decimal digits: the value, or \<^verbatim>\<open>std::out_of_range\<close> when
  it does not fit an \<^verbatim>\<open>int\<close>; \<^verbatim>\<open>std::invalid_argument\<close> on the empty string.
\<close>

definition digit_value :: "char \<Rightarrow> int" where
  "digit_value c = int (of_char c) - 48"

definition stoi :: "string \<Rightarrow> lex_failure + int" where
  "stoi number =
     (if number = [] then Inl StoiInvalidArgument
      else let v = foldl (\<lambda>acc c. 10 * acc + digit_value c) 0 number
           in if v > 2147483647 then Inl StoiOutOfRange else Inr v)"

definition ParseNumber :: "istream \<Rightarrow> lex_failure + (int \<times> istream)" where
  "ParseNumber s =
     (case ParseNumber_loop s [] of
        (s', number) \<Rightarrow>
          (case stoi number of Inl e \<Rightarrow> Inl e | Inr v \<Rightarrow> Inr (v, s')))"

function ParseName_loop :: "istream \<Rightarrow> string \<Rightarrow> istream \<times> string" where
  "ParseName_loop s line =
     (case istream_get s of
        (None, s') \<Rightarrow> (s', line)
      | (Some c, s') \<Rightarrow>
          if isalnum c \<or> c = CHR ''_'' then ParseName_loop s' (line @ [c])
          else (istream_putback c s', line))"
  by pat_completeness auto
termination
  by (relation "measure (\<lambda>(s, n). length (chars s))")
     (auto simp: istream_get_def split: if_splits list.splits)

declare ParseName_loop.simps [simp del]

definition ParseName :: "istream \<Rightarrow> string \<times> istream" where
  "ParseName s = (case ParseName_loop s [] of (s', line) \<Rightarrow> (line, s'))"

text \<open>
  The loop of \<^verbatim>\<open>ParseString\<close>. The local \<^verbatim>\<open>c\<close> is a \<open>char option\<close>: \<open>None\<close> until
  the first successful \<^verbatim>\<open>get(c)\<close>. The local \<^verbatim>\<open>next\<close> is declared without a value, so
  comparing it after a failed \<^verbatim>\<open>get(next)\<close> reads an uninitialised variable.
  The result is the stream, the text collected, and the last value of \<^verbatim>\<open>c\<close>.
\<close>

function ParseString_loop ::
  "char \<Rightarrow> istream \<Rightarrow> string \<Rightarrow> char option \<Rightarrow> lex_failure + (istream \<times> string \<times> char option)" where
  "ParseString_loop start s line c =
     (case istream_get s of
        (None, s') \<Rightarrow> Inr (s', line, c)
      | (Some c', s') \<Rightarrow>
          if c' = CHR 0x5C then
            (case istream_get s' of
               (None, s'') \<Rightarrow> Inl UninitializedRead
             | (Some next, s'') \<Rightarrow>
                 if next = CHR 0x22 then ParseString_loop start s'' (line @ [CHR 0x22]) (Some c')
                 else if next = CHR 0x27 then ParseString_loop start s'' (line @ [CHR 0x27]) (Some c')
                 else if next = CHR ''n'' then ParseString_loop start s'' (line @ [CHR 0x0A]) (Some c')
                 else if next = CHR ''t'' then ParseString_loop start s'' (line @ [CHR 0x09]) (Some c')
                 else ParseString_loop start s'' line (Some c'))
          else if c' = start then Inr (s', line, Some c')
          else ParseString_loop start s' (line @ [c']) (Some c'))"
  by pat_completeness auto
termination
  by (relation "measure (\<lambda>(start, s, line, c). length (chars s))")
     (auto simp: istream_get_def split: if_splits list.splits)

declare ParseString_loop.simps [simp del]

text \<open>
  \<^verbatim>\<open>ParseString\<close>. \<open>ndebug\<close> says whether the translation unit was compiled with
  \<^verbatim>\<open>NDEBUG\<close>: then \<^verbatim>\<open>assert(c == start)\<close> is no code at all; otherwise it reads \<^verbatim>\<open>c\<close>
  and aborts the process when the comparison fails.
\<close>

definition ParseString :: "bool \<Rightarrow> istream \<Rightarrow> lex_failure + (string \<times> istream)" where
  "ParseString ndebug s =
     (case istream_get s of
        (r, s0) \<Rightarrow>
          (case ParseString_loop (narrow r) s0 [] None of
             Inl e \<Rightarrow> Inl e
           | Inr (s', line, c) \<Rightarrow>
               if ndebug then Inr (line, s')
               else (case c of
                       None \<Rightarrow> Inl UninitializedRead
                     | Some c' \<Rightarrow> if c' = narrow r then Inr (line, s') else Inl AssertAbort)))"

subsection \<open>The tables of reserved words and of two-character operators\<close>

text \<open>
  Modelled from the spec: the tables \<^verbatim>\<open>key_words\<close> and \<^verbatim>\<open>dual_symbols\<close> are declared in
  lexer.h, which is not among the sources. The spec lists the reserved words
  \<^verbatim>\<open>class return if else def print and or not None True False\<close> and the operators
  \<^verbatim>\<open>== != <= >=\<close> with their tokens.
\<close>

definition key_words :: "string \<rightharpoonup> Token" where
  "key_words = map_of
     [(''class'', ClassTok), (''return'', ReturnTok), (''if'', IfTok), (''else'', ElseTok),
      (''def'', DefTok), (''print'', PrintTok), (''and'', AndTok), (''or'', OrTok),
      (''not'', NotTok), (''None'', NoneTok), (''True'', TrueTok), (''False'', FalseTok)]"

definition dual_symbols :: "string \<rightharpoonup> Token" where
  "dual_symbols = map_of
     [(''=='', EqTok), (''!='', NotEqTok), (''<='', LessOrEqTok), (''>='', GreaterOrEqTok)]"

subsection \<open>Loading the next token\<close>

lemma istream_peek_Some:
  "istream_peek s = (Some c, s') \<Longrightarrow> s' = s \<and> good s \<and> (\<exists>cs. chars s = c # cs)"
  by (auto simp: istream_peek_def split: if_splits list.splits)

lemma istream_peek_char:
  "(r, s) = istream_peek s0 \<Longrightarrow> \<not> is_eof (narrow r) \<Longrightarrow>
     s = s0 \<and> good s0 \<and> chars s0 = narrow r # tl (chars s0)"
  by (auto simp: istream_peek_def narrow_def is_eof_def split: if_splits list.splits)

lemma istream_get_good:
  "good s \<Longrightarrow> chars s = c # cs \<Longrightarrow> istream_get s = (Some c, s\<lparr>chars := cs\<rparr>)"
  by (simp add: istream_get_def)

lemma istream_get_cases:
  "istream_get s = (r, s') \<Longrightarrow>
     (r = None \<and> chars s' = chars s) \<or>
     (\<exists>c. r = Some c \<and> chars s = c # chars s' \<and> good s \<and> good s')"
  by (auto simp: istream_get_def good_def split: if_splits list.splits)

lemma istream_putback_good:
  "good s \<Longrightarrow> istream_putback c s = s\<lparr>chars := c # chars s\<rparr>"
  by (simp add: istream_putback_def good_def)

lemma PassComment_length: "length (chars (PassComment s)) \<le> length (chars s)"
proof (induction s rule: PassComment.induct)
  case (1 s)
  obtain r s' where g: "istream_get s = (r, s')" by (cases "istream_get s")
  show ?case
  proof (cases r)
    case None
    with g istream_get_cases[OF g] show ?thesis
      by (subst PassComment.simps) simp
  next
    case (Some c)
    with istream_get_cases[OF g] have cs: "chars s = c # chars s'" and gd: "good s'" by auto
    show ?thesis
    proof (cases "c = CHR 0x0A")
      case True
      with g Some cs gd show ?thesis
        by (subst PassComment.simps) (simp add: istream_putback_good)
    next
      case False
      with "1.IH" g Some have "length (chars (PassComment s')) \<le> length (chars s')" by simp
      with g Some cs False show ?thesis
        by (subst PassComment.simps) simp
    qed
  qed
qed

lemma CountSpaces_loop_length:
  "length (chars (fst (CountSpaces_loop s n))) \<le> length (chars s)"
proof (induction s n rule: CountSpaces_loop.induct)
  case (1 s n)
  obtain r s' where g: "istream_get s = (r, s')" by (cases "istream_get s")
  show ?case
  proof (cases r)
    case None
    with g istream_get_cases[OF g] show ?thesis
      by (subst CountSpaces_loop.simps) simp
  next
    case (Some c)
    with istream_get_cases[OF g] have cs: "chars s = c # chars s'" and gd: "good s'" by auto
    show ?thesis
    proof (cases "c = CHR '' ''")
      case True
      with "1.IH" g Some
      have "length (chars (fst (CountSpaces_loop s' (n + 1)))) \<le> length (chars s')" by simp
      with g Some cs True show ?thesis
        by (subst CountSpaces_loop.simps) simp
    next
      case False
      with g Some cs gd show ?thesis
        by (subst CountSpaces_loop.simps) (simp add: istream_putback_good)
    qed
  qed
qed

lemma istream_getline_length:
  "good s \<Longrightarrow> chars s \<noteq> [] \<Longrightarrow> length (chars (istream_getline s)) < length (chars s)"
proof -
  assume gd: "good s" and ne: "chars s \<noteq> []"
  have "length (dropWhile (\<lambda>c. c \<noteq> CHR 0x0A) (chars s)) \<le> length (chars s)"
    by (rule length_dropWhile_le)
  moreover have "CHR 0x0A \<in> set (chars s) \<Longrightarrow> dropWhile (\<lambda>c. c \<noteq> CHR 0x0A) (chars s) \<noteq> []"
    by (auto simp: dropWhile_eq_Nil_conv)
  ultimately show ?thesis using gd ne
    by (cases "dropWhile (\<lambda>c. c \<noteq> CHR 0x0A) (chars s)") (auto simp: istream_getline_def)
qed

text \<open>
  \<^verbatim>\<open>Lexer::LoadNextToken\<close>. The three branches that call it again have each extracted
  at least one character. The classification functions get the byte that was peeked;
  a byte above \<open>0x7F\<close> is in no class.
\<close>

function LoadNextToken :: "bool \<Rightarrow> Lexer \<Rightarrow> lex_failure + Lexer" where
  "LoadNextToken ndebug l0 =
     (case istream_peek (input_m l0) of
        (r, s) \<Rightarrow>
          let ch = narrow r; l = l0\<lparr>input_m := s\<rparr> in
          if is_eof ch then
            (if \<not> begin_m l then Inr ((PassString l)\<lparr>current_token_m := NewlineTok\<rparr>)
             else if indent_pos_m l > 0
             then Inr (l\<lparr>indent_pos_m := indent_pos_m l - 1, current_token_m := DedentTok\<rparr>)
             else Inr (l\<lparr>current_token_m := EofTok\<rparr>))
          else if ch = CHR 0x0A then
            (if begin_m l then LoadNextToken ndebug (PassString l)
             else Inr ((PassString l)\<lparr>current_token_m := NewlineTok\<rparr>))
          else if ch = CHR ''#'' then
            LoadNextToken ndebug (l\<lparr>input_m := PassComment (input_m l)\<rparr>)
          else if ch = CHR '' '' then
            LoadNextToken ndebug (CountSpaces l)
          else if indent_pos_m l \<noteq> indents_m l \<and> begin_m l then
            (if indent_pos_m l < indents_m l
             then Inr (l\<lparr>indent_pos_m := indent_pos_m l + 1, current_token_m := IndentTok\<rparr>)
             else Inr (l\<lparr>indent_pos_m := indent_pos_m l - 1, current_token_m := DedentTok\<rparr>))
          else if isdigit ch then
            (case ParseNumber (input_m l) of
               Inl e \<Rightarrow> Inl e
             | Inr (number, s') \<Rightarrow>
                 Inr (l\<lparr>input_m := s', current_token_m := NumberTok number, begin_m := False\<rparr>))
          else if isalpha ch \<or> ch = CHR ''_'' then
            (case ParseName (input_m l) of
               (name, s') \<Rightarrow>
                 Inr (l\<lparr>input_m := s',
                        current_token_m := (case key_words name of Some t \<Rightarrow> t | None \<Rightarrow> IdTok name),
                        begin_m := False\<rparr>))
          else if ch = CHR 0x22 \<or> ch = CHR 0x27 then
            (case ParseString ndebug (input_m l) of
               Inl e \<Rightarrow> Inl e
             | Inr (str, s') \<Rightarrow>
                 Inr (l\<lparr>input_m := s', current_token_m := StringTok str, begin_m := False\<rparr>))
          else
            (case istream_get (input_m l) of
               (r1, s1) \<Rightarrow>
                 (case istream_peek s1 of
                    (r2, s2) \<Rightarrow>
                      let dual = [narrow r1, narrow r2] in
                      (case dual_symbols dual of
                         Some t \<Rightarrow>
                           Inr (l\<lparr>input_m := snd (istream_get s2), current_token_m := t,
                                  begin_m := False\<rparr>)
                       | None \<Rightarrow>
                           Inr (l\<lparr>input_m := s2, current_token_m := CharTok (narrow r1),
                                  begin_m := False\<rparr>)))))"
  by pat_completeness auto
termination
proof (relation "measure (\<lambda>(ndebug, l). length (chars (input_m l)))", goal_cases)
  case 1
  show ?case by simp
next
  case (2 ndebug l0 r s ch l)
  with istream_peek_char[of r s "input_m l0"]
  have "s = input_m l0" "good s" "chars s \<noteq> []" by auto
  with 2 istream_getline_length[of s] show ?case
    by (simp add: PassString_def)
next
  case (3 ndebug l0 r s ch l)
  with istream_peek_char[of r s "input_m l0"]
  have ss: "s = input_m l0" and gd: "good s" and cs: "chars s = CHR ''#'' # tl (chars s)"
    by auto
  have "PassComment s = PassComment (s\<lparr>chars := tl (chars s)\<rparr>)"
    using istream_get_good[OF gd cs] by (subst PassComment.simps) simp
  with PassComment_length[of "s\<lparr>chars := tl (chars s)\<rparr>"] cs ss 3 show ?case
    by (cases "chars s") auto
next
  case (4 ndebug l0 r s ch l)
  with istream_peek_char[of r s "input_m l0"]
  have ss: "s = input_m l0" and gd: "good s" and cs: "chars s = CHR '' '' # tl (chars s)"
    by auto
  have "CountSpaces_loop s 0 = CountSpaces_loop (s\<lparr>chars := tl (chars s)\<rparr>) 1"
    using istream_get_good[OF gd cs] by (subst CountSpaces_loop.simps) simp
  with CountSpaces_loop_length[of "s\<lparr>chars := tl (chars s)\<rparr>" 1] cs ss 4 show ?case
    by (cases "chars s") (auto simp: CountSpaces_def split: prod.splits)
qed

declare LoadNextToken.simps [simp del]

text \<open>
  Modelled from the spec: the initial values of the members are given in lexer.h, which
  is not among the sources; the spec has \<open>at_line_start\<close> true at construction and both
  indentation counters at zero. The initial \<^verbatim>\<open>current_token_\<close> is never read:
  \<^verbatim>\<open>LoadNextToken\<close> assigns it whenever it returns. The constructor itself is in
  lexer.cpp: it calls \<^verbatim>\<open>LoadNextToken\<close> once.
\<close>

definition Lexer_new :: "bool \<Rightarrow> istream \<Rightarrow> lex_failure + Lexer" where
  "Lexer_new ndebug input =
     LoadNextToken ndebug
       \<lparr>input_m = input, current_token_m = NumberTok 0, begin_m = True,
        indents_m = 0, indent_pos_m = 0\<rparr>"

definition CurrentToken :: "Lexer \<Rightarrow> Token" where
  "CurrentToken l = current_token_m l"

definition NextToken :: "bool \<Rightarrow> Lexer \<Rightarrow> lex_failure + (Token \<times> Lexer)" where
  "NextToken ndebug l =
     (case LoadNextToken ndebug l of
        Inl e \<Rightarrow> Inl e
      | Inr l' \<Rightarrow> Inr (current_token_m l', l'))"

text \<open>The tokens that \<open>n\<close> successive calls of \<^verbatim>\<open>NextToken\<close> return.\<close>

fun NextTokens :: "bool \<Rightarrow> nat \<Rightarrow> Lexer \<Rightarrow> lex_failure + (Token list \<times> Lexer)" where
  "NextTokens ndebug 0 l = Inr ([], l)"
| "NextTokens ndebug (Suc n) l =
     (case NextToken ndebug l of
        Inl e \<Rightarrow> Inl e
      | Inr (t, l') \<Rightarrow>
          (case NextTokens ndebug n l' of
             Inl e \<Rightarrow> Inl e
           | Inr (ts, l'') \<Rightarrow> Inr (t # ts, l'')))"

text \<open>A fresh stream over a text: nothing extracted, no flag set.\<close>

definition istream_of :: "string \<Rightarrow> istream" where
  "istream_of text = \<lparr>chars = text, eofbit = False, failbit = False\<rparr>"

subsection \<open>Observing the lexer\<close>

text \<open>
  The token the cursor is on after construction, followed by the tokens of \<open>n\<close> calls of
  \<^verbatim>\<open>NextToken\<close>.
\<close>

definition Lexer_tokens :: "bool \<Rightarrow> nat \<Rightarrow> istream \<Rightarrow> lex_failure + Token list" where
  "Lexer_tokens ndebug n input =
     (case Lexer_new ndebug input of
        Inl e \<Rightarrow> Inl e
      | Inr l \<Rightarrow>
          (case NextTokens ndebug n l of
             Inl e \<Rightarrow> Inl e
           | Inr (ts, l') \<Rightarrow> Inr (CurrentToken l # ts)))"

text \<open>
  The first \<open>n\<close> tokens that are due once the input is exhausted: the pending
  \<open>Newline\<close>, one \<open>Dedent\<close> per open level, then \<open>Eof\<close> for ever.
\<close>

definition end_of_input_tokens :: "bool \<Rightarrow> nat \<Rightarrow> nat \<Rightarrow> Token list" where
  "end_of_input_tokens at_line_start indent_pos n =
     take n ((if at_line_start then [] else [NewlineTok]) @ replicate indent_pos DedentTok
             @ replicate n EofTok)"

text \<open>What the loop of \<^verbatim>\<open>ParseString\<close> leaves: the stream and the text collected.\<close>

definition scanned ::
  "lex_failure + (istream \<times> string \<times> char option) \<Rightarrow> lex_failure + (istream \<times> string)" where
  "scanned r = map_sum id (\<lambda>(s, line, c). (s, line)) r"

section \<open>The runtime (runtime.cpp) and the AST (statement.cpp)\<close>

subsection \<open>Objects, holders and the AST\<close>

text \<open>
  A \<^verbatim>\<open>ClassInstance\<close> is mutable and is referred to by pointer, so it lives in a store
  and is named by its address. Numbers, strings, booleans and classes are never changed
  after construction; an \<^verbatim>\<open>Object*\<close> to one of them is modelled by its value. A
  \<^verbatim>\<open>Number\<close> holds a C++ \<^verbatim>\<open>int\<close>: a 32-bit word, read as a signed value with \<open>sint\<close>.

  An \<^verbatim>\<open>ObjectHolder\<close> is empty (\<^verbatim>\<open>ObjectHolder::None()\<close>) or a shared pointer, which
  owns its object (\<^verbatim>\<open>Own\<close>) or has a deleter that does nothing (\<^verbatim>\<open>Share\<close>).
  Holders are values here and carry no reference count. That loses nothing where the
  source keeps the holder for as long as it uses the object. \<^verbatim>\<open>Sub\<close>, \<^verbatim>\<open>Mult\<close> and \<^verbatim>\<open>Div\<close>
  keep only a raw pointer taken from a temporary holder: what they read is settled
  in \<open>temporary_pointee\<close> below. A \<^verbatim>\<open>ClassInstance\<close> is never freed: the instances that
  the code creates are members of \<^verbatim>\<open>NewInstance\<close> nodes and live as long as the AST.

  \<open>Statement\<close> has one constructor for each node class whose \<^verbatim>\<open>Execute\<close> is defined in
  statement.cpp. \<^verbatim>\<open>FieldAssignment\<close> holds its \<^verbatim>\<open>VariableValue object_\<close> by the dotted
  names; \<^verbatim>\<open>NewInstance\<close> holds a \<^verbatim>\<open>ClassInstance\<close> member, here the address of that
  member; the \<^verbatim>\<open>Comparator\<close> of a \<^verbatim>\<open>Comparison\<close> is one of the six comparison functions
  of runtime.cpp. The node \<^verbatim>\<open>Not\<close> is \<open>NotStmt\<close>, the object \<^verbatim>\<open>Class\<close> is \<open>ClassObject\<close>.
\<close>

text \<open>
  Modelled from the spec: the types \<^verbatim>\<open>Method\<close> and \<^verbatim>\<open>Closure\<close> are declared in runtime.h,
  which is not among the sources. In the spec a method has a name, an ordered list of
  formal parameter names and a body, and a closure maps names to holders.
\<close>

type_synonym addr = nat

datatype ownership = Owning | NonOwning

datatype Comparator =
  EqualCmp | LessCmp | NotEqualCmp | GreaterCmp | LessOrEqualCmp | GreaterOrEqualCmp

datatype Statement =
    VariableValue "string list"
  | Assignment string Statement
  | FieldAssignment "string list" string Statement
  | Print "Statement list"
  | MethodCall Statement string "Statement list"
  | MethodBody Statement
  | Return Statement
  | ClassDefinition ObjectHolder
  | NewInstance addr "Statement list"
  | Stringify Statement
  | Add Statement Statement
  | Sub Statement Statement
  | Mult Statement Statement
  | Div Statement Statement
  | Or Statement Statement
  | And Statement Statement
  | NotStmt Statement
  | Comparison Comparator Statement Statement
  | Compound "Statement list"
  | IfElse Statement Statement "Statement option"
and Method = Method (name: string) (formal_params: "string list") (body: Statement)
and Class = Class (name_m: string) (methods_m: "Method list") (parent_m: "Class option")
and Object =
    Number "32 word"
  | String string
  | Bool bool
  | ClassObject Class
  | ClassInstance addr
and ObjectHolder = NoneHolder | Holder ownership Object

type_synonym Closure = "string \<rightharpoonup> ObjectHolder"

text \<open>
  The members of a \<^verbatim>\<open>ClassInstance\<close> (\<^verbatim>\<open>cls_\<close>, \<^verbatim>\<open>closure_\<close>), and what execution
  can change besides the closure it is given: the characters written to the output
  stream of the \<^verbatim>\<open>Context\<close>, and the instances in memory.
\<close>

record Instance =
  cls_m :: Class
  closure_m :: Closure

record State =
  output_stream :: string
  heap :: "addr \<Rightarrow> Instance"

subsection \<open>runtime.cpp\<close>

fun GetMethod :: "Class \<Rightarrow> string \<Rightarrow> Method option" where
  "GetMethod (Class nm methods parent) n =
     (case find (\<lambda>method. name method = n) methods of
        Some m \<Rightarrow> Some m
      | None \<Rightarrow> (case parent of Some p \<Rightarrow> GetMethod p n | None \<Rightarrow> None))"

definition HasMethod :: "Instance \<Rightarrow> string \<Rightarrow> nat \<Rightarrow> bool" where
  "HasMethod inst method argument_count =
     (case GetMethod (cls_m inst) method of
        Some m \<Rightarrow> length (formal_params m) = argument_count
      | None \<Rightarrow> False)"

text \<open>
  Modelled from the spec: \<^verbatim>\<open>ObjectHolder::Own\<close> and \<^verbatim>\<open>ObjectHolder::TryAs\<close> are defined in
  runtime.h, which is not among the sources. In the spec \<^verbatim>\<open>own\<close> allocates a new owning
  holder and \<^verbatim>\<open>try_as<T>\<close> returns the object when it is a \<^verbatim>\<open>T\<close>, nothing otherwise.
  \<^verbatim>\<open>Share\<close> is in runtime.cpp.
\<close>

definition Own :: "Object \<Rightarrow> ObjectHolder" where
  "Own object = Holder Owning object"

definition Share :: "Object \<Rightarrow> ObjectHolder" where
  "Share object = Holder NonOwning object"

definition TryAs_Number :: "ObjectHolder \<Rightarrow> 32 word option" where
  "TryAs_Number h = (case h of Holder ow (Number v) \<Rightarrow> Some v | _ \<Rightarrow> None)"

definition TryAs_String :: "ObjectHolder \<Rightarrow> string option" where
  "TryAs_String h = (case h of Holder ow (String v) \<Rightarrow> Some v | _ \<Rightarrow> None)"

definition TryAs_Bool :: "ObjectHolder \<Rightarrow> bool option" where
  "TryAs_Bool h = (case h of Holder ow (Bool v) \<Rightarrow> Some v | _ \<Rightarrow> None)"

definition TryAs_Class :: "ObjectHolder \<Rightarrow> Class option" where
  "TryAs_Class h = (case h of Holder ow (ClassObject c) \<Rightarrow> Some c | _ \<Rightarrow> None)"

definition TryAs_ClassInstance :: "ObjectHolder \<Rightarrow> addr option" where
  "TryAs_ClassInstance h = (case h of Holder ow (ClassInstance a) \<Rightarrow> Some a | _ \<Rightarrow> None)"

definition IsTrue :: "ObjectHolder \<Rightarrow> bool" where
  "IsTrue object =
     (case TryAs_Number object of
        Some v \<Rightarrow> v \<noteq> 0
      | None \<Rightarrow>
          (case TryAs_Bool object of
             Some b \<Rightarrow> b = True
           | None \<Rightarrow>
               (case TryAs_String object of
                  Some str \<Rightarrow> \<not> (str = [])
                | None \<Rightarrow> False)))"

text \<open>
  How a call can end other than by returning: a \<^verbatim>\<open>std::runtime_error\<close> with its
  message; the \<^verbatim>\<open>ObjectHolder\<close> that \<^verbatim>\<open>Return::Execute\<close> throws; the failed assertion of
  \<^verbatim>\<open>AssertIsValid\<close> when an empty holder is dereferenced; undefined behaviour (signed
  overflow, a null pointer dereferenced, the first element of an empty vector).
  Whatever was written before stays written, so a failure comes with the closure and
  the state it leaves.

  The interpreter need not terminate: a method may call itself for ever. \<open>None\<close> is
  the result of a run that the model does not follow to its end: one that was cut off
  (see \<open>Execute\<close> below), or one that reads through a raw pointer to an object whose
  owners the model does not know (see \<open>temporary_pointee\<close> below).
\<close>

datatype Failure =
    RuntimeError string
  | ReturnSignal ObjectHolder
  | AssertIsValidFailed
  | UndefinedBehaviour

type_synonym 'a outcome = "Failure + 'a"

type_synonym exec_t =
  "Statement \<Rightarrow> Closure \<Rightarrow> State \<Rightarrow> (ObjectHolder outcome \<times> Closure \<times> State) option"

type_synonym print_t = "Object \<Rightarrow> State \<Rightarrow> (string outcome \<times> State) option"

text \<open>Sequencing: a failure of the first step is the failure of the whole.\<close>

definition and_then ::
  "('a outcome \<times> Closure \<times> State) option \<Rightarrow>
   ('a \<Rightarrow> Closure \<Rightarrow> State \<Rightarrow> ('b outcome \<times> Closure \<times> State) option) \<Rightarrow>
   ('b outcome \<times> Closure \<times> State) option" where
  "and_then m f =
     (case m of
        None \<Rightarrow> None
      | Some (Inl e, c, s) \<Rightarrow> Some (Inl e, c, s)
      | Some (Inr v, c, s) \<Rightarrow> f v c s)"

definition and_then_s ::
  "('a outcome \<times> State) option \<Rightarrow> ('a \<Rightarrow> State \<Rightarrow> ('b outcome \<times> State) option) \<Rightarrow>
   ('b outcome \<times> State) option" where
  "and_then_s m f =
     (case m of
        None \<Rightarrow> None
      | Some (Inl e, s) \<Rightarrow> Some (Inl e, s)
      | Some (Inr v, s) \<Rightarrow> f v s)"

definition in_closure ::
  "Closure \<Rightarrow> ('a outcome \<times> State) option \<Rightarrow> ('a outcome \<times> Closure \<times> State) option" where
  "in_closure c m = (case m of None \<Rightarrow> None | Some (r, s) \<Rightarrow> Some (r, c, s))"

definition drop_closure ::
  "('a outcome \<times> Closure \<times> State) option \<Rightarrow> ('a outcome \<times> State) option" where
  "drop_closure m = (case m of None \<Rightarrow> None | Some (r, c, s) \<Rightarrow> Some (r, s))"

text \<open>
  \<^verbatim>\<open>ClassInstance::Call\<close>, on the instance at address \<open>this\<close>. \<open>exec\<close> executes a
  statement (\<^verbatim>\<open>body->Execute\<close>). The pointer \<^verbatim>\<open>method_\<close> cannot be null after
  \<^verbatim>\<open>HasMethod\<close> has held.
\<close>

definition ClassInstance_Call ::
  "exec_t \<Rightarrow> addr \<Rightarrow> string \<Rightarrow> ObjectHolder list \<Rightarrow> State \<Rightarrow> (ObjectHolder outcome \<times> State) option" where
  "ClassInstance_Call exec this method actual_args s =
     (if \<not> HasMethod (heap s this) method (length actual_args)
      then Some (Inl (RuntimeError (''Error calling method '' @ method)), s)
      else
        (case GetMethod (cls_m (heap s this)) method of
           None \<Rightarrow> Some (Inl UndefinedBehaviour, s)
         | Some method' \<Rightarrow>
             let closure = [''self'' \<mapsto> Share (ClassInstance this)];
                 closure = foldl (\<lambda>cl (param, arg). cl(param \<mapsto> arg)) closure
                             (zip (formal_params method') actual_args)
             in drop_closure (exec (body method') closure s)))"

text \<open>
  The comparison functions. \<^verbatim>\<open>operator<\<close> on \<^verbatim>\<open>std::string\<close> is the lexicographic
  order of the bytes, on \<^verbatim>\<open>bool\<close> it has \<^verbatim>\<open>false < true\<close>. In \<^verbatim>\<open>Greater\<close> the operator
  \<^verbatim>\<open>||\<close> calls \<^verbatim>\<open>Equal\<close> only when \<^verbatim>\<open>Less\<close> has returned false, in the state that
  \<^verbatim>\<open>Less\<close> has left.
\<close>

definition Equal ::
  "exec_t \<Rightarrow> ObjectHolder \<Rightarrow> ObjectHolder \<Rightarrow> State \<Rightarrow> (bool outcome \<times> State) option" where
  "Equal exec lhs rhs s =
     (case (TryAs_Number lhs, TryAs_Number rhs) of
        (Some number_l, Some number_r) \<Rightarrow> Some (Inr (number_l = number_r), s)
      | _ \<Rightarrow>
     (case (TryAs_String lhs, TryAs_String rhs) of
        (Some string_l, Some string_r) \<Rightarrow> Some (Inr (string_l = string_r), s)
      | _ \<Rightarrow>
     (case (TryAs_Bool lhs, TryAs_Bool rhs) of
        (Some bool_l, Some bool_r) \<Rightarrow> Some (Inr (bool_l = bool_r), s)
      | _ \<Rightarrow>
     (case TryAs_ClassInstance lhs of
        Some instance \<Rightarrow>
          and_then_s (ClassInstance_Call exec instance ''__eq__'' [rhs] s)
            (\<lambda>r s'. Some (Inr (IsTrue r), s'))
      | None \<Rightarrow>
          if lhs = NoneHolder \<and> rhs = NoneHolder then Some (Inr True, s)
          else Some (Inl (RuntimeError ''Cannot compare objects for equality''), s)))))"

definition Less ::
  "exec_t \<Rightarrow> ObjectHolder \<Rightarrow> ObjectHolder \<Rightarrow> State \<Rightarrow> (bool outcome \<times> State) option" where
  "Less exec lhs rhs s =
     (case (TryAs_Number lhs, TryAs_Number rhs) of
        (Some number_l, Some number_r) \<Rightarrow> Some (Inr (sint number_l < sint number_r), s)
      | _ \<Rightarrow>
     (case (TryAs_String lhs, TryAs_String rhs) of
        (Some string_l, Some string_r) \<Rightarrow> Some (Inr (string_l < string_r), s)
      | _ \<Rightarrow>
     (case (TryAs_Bool lhs, TryAs_Bool rhs) of
        (Some bool_l, Some bool_r) \<Rightarrow> Some (Inr (bool_l < bool_r), s)
      | _ \<Rightarrow>
     (case TryAs_ClassInstance lhs of
        Some instance \<Rightarrow>
          and_then_s (ClassInstance_Call exec instance ''__lt__'' [rhs] s)
            (\<lambda>r s'. Some (Inr (IsTrue r), s'))
      | None \<Rightarrow> Some (Inl (RuntimeError ''Cannot compare objects for less''), s)))))"

definition NotEqual ::
  "exec_t \<Rightarrow> ObjectHolder \<Rightarrow> ObjectHolder \<Rightarrow> State \<Rightarrow> (bool outcome \<times> State) option" where
  "NotEqual exec lhs rhs s =
     and_then_s (Equal exec lhs rhs s) (\<lambda>e s'. Some (Inr (\<not> e), s'))"

definition Greater ::
  "exec_t \<Rightarrow> ObjectHolder \<Rightarrow> ObjectHolder \<Rightarrow> State \<Rightarrow> (bool outcome \<times> State) option" where
  "Greater exec lhs rhs s =
     and_then_s (Less exec lhs rhs s)
       (\<lambda>l s1. if l then Some (Inr (\<not> l), s1)
                else and_then_s (Equal exec lhs rhs s1) (\<lambda>e s2. Some (Inr (\<not> (l \<or> e)), s2)))"

definition LessOrEqual ::
  "exec_t \<Rightarrow> ObjectHolder \<Rightarrow> ObjectHolder \<Rightarrow> State \<Rightarrow> (bool outcome \<times> State) option" where
  "LessOrEqual exec lhs rhs s =
     and_then_s (Greater exec lhs rhs s) (\<lambda>g s'. Some (Inr (\<not> g), s'))"

definition GreaterOrEqual ::
  "exec_t \<Rightarrow> ObjectHolder \<Rightarrow> ObjectHolder \<Rightarrow> State \<Rightarrow> (bool outcome \<times> State) option" where
  "GreaterOrEqual exec lhs rhs s =
     and_then_s (Less exec lhs rhs s) (\<lambda>l s'. Some (Inr (\<not> l), s'))"

subsection \<open>statement.cpp\<close>

definition ADD_METHOD :: string where
  "ADD_METHOD = ''__add__''"

definition INIT_METHOD :: string where
  "INIT_METHOD = ''__init__''"

fun VariableValue_Execute :: "string list \<Rightarrow> Closure \<Rightarrow> State \<Rightarrow> ObjectHolder outcome" where
  "VariableValue_Execute [] closure s = Inl UndefinedBehaviour"
| "VariableValue_Execute (id0 # ids) closure s =
     (case closure id0 of
        Some variable \<Rightarrow>
          if length (id0 # ids) > 1 then
            (case TryAs_ClassInstance variable of
               Some object \<Rightarrow> VariableValue_Execute ids (closure_m (heap s object)) s
             | None \<Rightarrow> Inl (RuntimeError ''Error cast to ClassInstance''))
          else Inr variable
      | None \<Rightarrow> Inl (RuntimeError ''Variable not found''))"

definition Assignment_Execute ::
  "exec_t \<Rightarrow> string \<Rightarrow> Statement \<Rightarrow> Closure \<Rightarrow> State \<Rightarrow> (ObjectHolder outcome \<times> Closure \<times> State) option" where
  "Assignment_Execute exec var rv closure s =
     and_then (exec rv closure s) (\<lambda>v c1 s1. Some (Inr v, c1(var \<mapsto> v), s1))"

definition set_field :: "addr \<Rightarrow> string \<Rightarrow> ObjectHolder \<Rightarrow> State \<Rightarrow> State" where
  "set_field object field_name v s =
     s\<lparr>heap := (heap s)(object := (heap s object)
          \<lparr>closure_m := (closure_m (heap s object))(field_name \<mapsto> v)\<rparr>)\<rparr>"

definition FieldAssignment_Execute ::
  "exec_t \<Rightarrow> string list \<Rightarrow> string \<Rightarrow> Statement \<Rightarrow> Closure \<Rightarrow> State \<Rightarrow>
   (ObjectHolder outcome \<times> Closure \<times> State) option" where
  "FieldAssignment_Execute exec object_ids field_name rv closure s =
     (case VariableValue_Execute object_ids closure s of
        Inl e \<Rightarrow> Some (Inl e, closure, s)
      | Inr h \<Rightarrow>
          (case TryAs_ClassInstance h of
             Some object \<Rightarrow>
               and_then (exec rv closure s)
                 (\<lambda>v c1 s1. Some (Inr v, c1, set_field object field_name v s1))
           | None \<Rightarrow> Some (Inl (RuntimeError ''Error cast to ClassInstance''), closure, s)))"

definition write_out :: "string \<Rightarrow> State \<Rightarrow> State" where
  "write_out text s = s\<lparr>output_stream := output_stream s @ text\<rparr>"

fun Print_loop ::
  "exec_t \<Rightarrow> print_t \<Rightarrow> Statement list \<Rightarrow> bool \<Rightarrow> Closure \<Rightarrow> State \<Rightarrow>
   (unit outcome \<times> Closure \<times> State) option" where
  "Print_loop exec pr [] isFirst closure s = Some (Inr (), closure, s)"
| "Print_loop exec pr (arg # args) isFirst closure s =
     and_then (exec arg closure (if \<not> isFirst then write_out '' '' s else s))
       (\<lambda>object c1 s1.
          and_then
            (case object of
               Holder ow obj \<Rightarrow>
                 and_then (in_closure c1 (pr obj s1))
                   (\<lambda>text c2 s2. Some (Inr (), c2, write_out text s2))
             | NoneHolder \<Rightarrow> Some (Inr (), c1, write_out ''None'' s1))
            (\<lambda>u c2 s2. Print_loop exec pr args False c2 s2))"

definition Print_Execute ::
  "exec_t \<Rightarrow> print_t \<Rightarrow> Statement list \<Rightarrow> Closure \<Rightarrow> State \<Rightarrow>
   (ObjectHolder outcome \<times> Closure \<times> State) option" where
  "Print_Execute exec pr args closure s =
     and_then (Print_loop exec pr args True closure s)
       (\<lambda>u c1 s1. Some (Inr NoneHolder, c1, write_out [CHR 0x0A] s1))"

fun Execute_args ::
  "exec_t \<Rightarrow> Statement list \<Rightarrow> ObjectHolder list \<Rightarrow> Closure \<Rightarrow> State \<Rightarrow>
   (ObjectHolder list outcome \<times> Closure \<times> State) option" where
  "Execute_args exec [] actual_args closure s = Some (Inr actual_args, closure, s)"
| "Execute_args exec (arg # args) actual_args closure s =
     and_then (exec arg closure s)
       (\<lambda>v c1 s1. Execute_args exec args (actual_args @ [v]) c1 s1)"

definition MethodCall_Execute ::
  "exec_t \<Rightarrow> Statement \<Rightarrow> string \<Rightarrow> Statement list \<Rightarrow> Closure \<Rightarrow> State \<Rightarrow>
   (ObjectHolder outcome \<times> Closure \<times> State) option" where
  "MethodCall_Execute exec object method args closure s =
     and_then (exec object closure s)
       (\<lambda>h c1 s1.
          case TryAs_ClassInstance h of
            Some this \<Rightarrow>
              and_then (Execute_args exec args [] c1 s1)
                (\<lambda>actual_args c2 s2.
                   in_closure c2 (ClassInstance_Call exec this method actual_args s2))
          | None \<Rightarrow> Some (Inl (RuntimeError ''Error cast to ClassInstance''), c1, s1))"

definition MethodBody_Execute ::
  "exec_t \<Rightarrow> Statement \<Rightarrow> Closure \<Rightarrow> State \<Rightarrow> (ObjectHolder outcome \<times> Closure \<times> State) option" where
  "MethodBody_Execute exec body_stmt closure s =
     (case exec body_stmt closure s of
        Some (Inl (ReturnSignal result), c1, s1) \<Rightarrow> Some (Inr result, c1, s1)
      | r \<Rightarrow> r)"

definition Return_Execute ::
  "exec_t \<Rightarrow> Statement \<Rightarrow> Closure \<Rightarrow> State \<Rightarrow> (ObjectHolder outcome \<times> Closure \<times> State) option" where
  "Return_Execute exec statement closure s =
     and_then (exec statement closure s) (\<lambda>v c1 s1. Some (Inl (ReturnSignal v), c1, s1))"

definition ClassDefinition_Execute ::
  "ObjectHolder \<Rightarrow> Closure \<Rightarrow> State \<Rightarrow> (ObjectHolder outcome \<times> Closure \<times> State) option" where
  "ClassDefinition_Execute cls_holder closure s =
     (case TryAs_Class cls_holder of
        Some cls \<Rightarrow> Some (Inr NoneHolder, closure(name_m cls \<mapsto> cls_holder), s)
      | None \<Rightarrow> Some (Inl UndefinedBehaviour, closure, s))"

definition NewInstance_Execute ::
  "exec_t \<Rightarrow> addr \<Rightarrow> Statement list \<Rightarrow> Closure \<Rightarrow> State \<Rightarrow>
   (ObjectHolder outcome \<times> Closure \<times> State) option" where
  "NewInstance_Execute exec class_instance args closure s =
     (if HasMethod (heap s class_instance) INIT_METHOD (length args) then
        and_then (Execute_args exec args [] closure s)
          (\<lambda>actual_args c1 s1.
             and_then (in_closure c1 (ClassInstance_Call exec class_instance INIT_METHOD actual_args s1))
               (\<lambda>r c2 s2. Some (Inr (Share (ClassInstance class_instance)), c2, s2)))
      else Some (Inr (Share (ClassInstance class_instance)), closure, s))"

definition Stringify_Execute ::
  "exec_t \<Rightarrow> print_t \<Rightarrow> Statement \<Rightarrow> Closure \<Rightarrow> State \<Rightarrow>
   (ObjectHolder outcome \<times> Closure \<times> State) option" where
  "Stringify_Execute exec pr argument closure s =
     and_then (exec argument closure s)
       (\<lambda>object c1 s1.
          case object of
            Holder ow obj \<Rightarrow>
              and_then (in_closure c1 (pr obj s1))
                (\<lambda>text c2 s2. Some (Inr (Own (String text)), c2, s2))
          | NoneHolder \<Rightarrow> Some (Inr (Own (String ''None'')), c1, s1))"

text \<open>
  The result of \<^verbatim>\<open>int\<close> arithmetic as a fresh owning \<^verbatim>\<open>Number\<close>; a result outside the
  range of \<^verbatim>\<open>int\<close> is undefined behaviour. \<^verbatim>\<open>/\<close> truncates towards zero (\<open>sdiv\<close>).
\<close>

definition int_Number :: "int \<Rightarrow> ObjectHolder outcome" where
  "int_Number r =
     (if - 2147483648 \<le> r \<and> r \<le> 2147483647 then Inr (Own (Number (word_of_int r)))
      else Inl UndefinedBehaviour)"

definition Add_Execute ::
  "exec_t \<Rightarrow> Statement \<Rightarrow> Statement \<Rightarrow> Closure \<Rightarrow> State \<Rightarrow>
   (ObjectHolder outcome \<times> Closure \<times> State) option" where
  "Add_Execute exec lhs rhs closure s =
     and_then (exec lhs closure s)
       (\<lambda>lhs_object c1 s1.
          and_then (exec rhs c1 s1)
            (\<lambda>rhs_object c2 s2.
               case (TryAs_Number lhs_object, TryAs_Number rhs_object) of
                 (Some lhs_number, Some rhs_number) \<Rightarrow>
                   Some (int_Number (sint lhs_number + sint rhs_number), c2, s2)
               | _ \<Rightarrow>
               (case (TryAs_String lhs_object, TryAs_String rhs_object) of
                  (Some lhs_string, Some rhs_string) \<Rightarrow>
                    Some (Inr (Own (String (lhs_string @ rhs_string))), c2, s2)
                | _ \<Rightarrow>
               (case TryAs_ClassInstance lhs_object of
                  Some lhs_class_instance \<Rightarrow>
                    in_closure c2
                      (ClassInstance_Call exec lhs_class_instance ADD_METHOD [rhs_object] s2)
                | None \<Rightarrow> Some (Inl (RuntimeError ''Error addition''), c2, s2)))))"

text \<open>
  \<^verbatim>\<open>Sub\<close>, \<^verbatim>\<open>Mult\<close> and \<^verbatim>\<open>Div\<close> do not keep the holders of their operands:
  \<^verbatim>\<open>lhs_->Execute(closure, context).TryAs<runtime::Number>()\<close> keeps a raw pointer, and
  the temporary holder is destroyed at the end of that declaration, before the pointer
  is read. The object is then alive only if another holder owns it:
  \<^item> a holder made by \<^verbatim>\<open>Share\<close> owns nothing, its object lives elsewhere: alive;
  \<^item> \<^verbatim>\<open>Sub\<close>, \<^verbatim>\<open>Mult\<close>, \<^verbatim>\<open>Div\<close>, and \<^verbatim>\<open>Add\<close> when its left operand is not a class
    instance, return a number in a holder fresh from \<^verbatim>\<open>Own\<close>, which is its only owner:
    freed, and reading it is undefined behaviour;
  \<^item> \<^verbatim>\<open>VariableValue\<close>, \<^verbatim>\<open>Assignment\<close> and \<^verbatim>\<open>FieldAssignment\<close> return a copy of a holder
    that a closure keeps: alive when it is read, provided that nothing was executed in
    between that could overwrite that entry (\<open>undisturbed\<close>: the operand is the right
    one, or the right operand is a \<^verbatim>\<open>VariableValue\<close>, which writes nothing);
  \<^item> in every other case the owners are not known here (\<open>Untracked\<close>), and the model
    gives no outcome for the read.
\<close>

datatype pointee = Alive | Freed | Untracked

definition is_VariableValue :: "Statement \<Rightarrow> bool" where
  "is_VariableValue stmt = (case stmt of VariableValue dotted_ids \<Rightarrow> True | _ \<Rightarrow> False)"

definition temporary_pointee ::
  "exec_t \<Rightarrow> Statement \<Rightarrow> Closure \<Rightarrow> State \<Rightarrow> ObjectHolder \<Rightarrow> bool \<Rightarrow> pointee" where
  "temporary_pointee exec operand closure s h undisturbed =
     (case h of
        NoneHolder \<Rightarrow> Alive
      | Holder NonOwning obj \<Rightarrow> Alive
      | Holder Owning obj \<Rightarrow>
          (case operand of
             Sub lhs rhs \<Rightarrow> Freed
           | Mult lhs rhs \<Rightarrow> Freed
           | Div lhs rhs \<Rightarrow> Freed
           | Add lhs rhs \<Rightarrow>
               (case exec lhs closure s of
                  Some (Inr lhs_object, c1, s1) \<Rightarrow>
                    if TryAs_ClassInstance lhs_object = None then Freed else Untracked
                | _ \<Rightarrow> Untracked)
           | VariableValue dotted_ids \<Rightarrow> if undisturbed then Alive else Untracked
           | Assignment var rv \<Rightarrow> if undisturbed then Alive else Untracked
           | FieldAssignment object_ids field_name rv \<Rightarrow>
               if undisturbed then Alive else Untracked
           | _ \<Rightarrow> Untracked))"

text \<open>
  Reading both numbers (\<^verbatim>\<open>Sub\<close>, \<^verbatim>\<open>Mult\<close>): undefined behaviour when one of them is
  freed, \<open>result\<close> when both are alive.
\<close>

definition read_both ::
  "pointee \<Rightarrow> pointee \<Rightarrow> Closure \<Rightarrow> State \<Rightarrow>
   (ObjectHolder outcome \<times> Closure \<times> State) option \<Rightarrow>
   (ObjectHolder outcome \<times> Closure \<times> State) option" where
  "read_both lhs_p rhs_p c s result =
     (if lhs_p = Freed \<or> rhs_p = Freed then Some (Inl UndefinedBehaviour, c, s)
      else if lhs_p = Untracked \<or> rhs_p = Untracked then None
      else result)"

definition Sub_Execute ::
  "exec_t \<Rightarrow> Statement \<Rightarrow> Statement \<Rightarrow> Closure \<Rightarrow> State \<Rightarrow>
   (ObjectHolder outcome \<times> Closure \<times> State) option" where
  "Sub_Execute exec lhs rhs closure s =
     and_then (exec lhs closure s)
       (\<lambda>lhs_object c1 s1.
          and_then (exec rhs c1 s1)
            (\<lambda>rhs_object c2 s2.
               case (TryAs_Number lhs_object, TryAs_Number rhs_object) of
                 (Some lhs_number, Some rhs_number) \<Rightarrow>
                   read_both
                     (temporary_pointee exec lhs closure s lhs_object (is_VariableValue rhs))
                     (temporary_pointee exec rhs c1 s1 rhs_object True) c2 s2
                     (Some (int_Number (sint lhs_number - sint rhs_number), c2, s2))
               | _ \<Rightarrow> Some (Inl (RuntimeError ''Error subtration''), c2, s2)))"

definition Mult_Execute ::
  "exec_t \<Rightarrow> Statement \<Rightarrow> Statement \<Rightarrow> Closure \<Rightarrow> State \<Rightarrow>
   (ObjectHolder outcome \<times> Closure \<times> State) option" where
  "Mult_Execute exec lhs rhs closure s =
     and_then (exec lhs closure s)
       (\<lambda>lhs_object c1 s1.
          and_then (exec rhs c1 s1)
            (\<lambda>rhs_object c2 s2.
               case (TryAs_Number lhs_object, TryAs_Number rhs_object) of
                 (Some lhs_number, Some rhs_number) \<Rightarrow>
                   read_both
                     (temporary_pointee exec lhs closure s lhs_object (is_VariableValue rhs))
                     (temporary_pointee exec rhs c1 s1 rhs_object True) c2 s2
                     (Some (int_Number (sint lhs_number * sint rhs_number), c2, s2))
               | _ \<Rightarrow> Some (Inl (RuntimeError ''Error multiplication''), c2, s2)))"

text \<open>
  \<^verbatim>\<open>Div\<close> reads the right number first, to compare it with zero, and the left one
  only when it divides.
\<close>

definition Div_Execute ::
  "exec_t \<Rightarrow> Statement \<Rightarrow> Statement \<Rightarrow> Closure \<Rightarrow> State \<Rightarrow>
   (ObjectHolder outcome \<times> Closure \<times> State) option" where
  "Div_Execute exec lhs rhs closure s =
     and_then (exec lhs closure s)
       (\<lambda>lhs_object c1 s1.
          and_then (exec rhs c1 s1)
            (\<lambda>rhs_object c2 s2.
               case (TryAs_Number lhs_object, TryAs_Number rhs_object) of
                 (Some lhs_number, Some rhs_number) \<Rightarrow>
                   (case temporary_pointee exec rhs c1 s1 rhs_object True of
                      Freed \<Rightarrow> Some (Inl UndefinedBehaviour, c2, s2)
                    | Untracked \<Rightarrow> None
                    | Alive \<Rightarrow>
                        if rhs_number = 0
                        then Some (Inl (RuntimeError ''Division by zero''), c2, s2)
                        else
                          (case temporary_pointee exec lhs closure s lhs_object
                                  (is_VariableValue rhs) of
                             Freed \<Rightarrow> Some (Inl UndefinedBehaviour, c2, s2)
                           | Untracked \<Rightarrow> None
                           | Alive \<Rightarrow>
                               Some (int_Number (sint lhs_number sdiv sint rhs_number), c2, s2)))
               | _ \<Rightarrow> Some (Inl (RuntimeError ''Error division''), c2, s2)))"

definition Or_Execute ::
  "exec_t \<Rightarrow> Statement \<Rightarrow> Statement \<Rightarrow> Closure \<Rightarrow> State \<Rightarrow>
   (ObjectHolder outcome \<times> Closure \<times> State) option" where
  "Or_Execute exec lhs rhs closure s =
     and_then (exec lhs closure s)
       (\<lambda>lhs_object c1 s1.
          if IsTrue lhs_object then Some (Inr (Own (Bool True)), c1, s1)
          else and_then (exec rhs c1 s1)
                 (\<lambda>rhs_object c2 s2. Some (Inr (Own (Bool (IsTrue rhs_object))), c2, s2)))"

definition And_Execute ::
  "exec_t \<Rightarrow> Statement \<Rightarrow> Statement \<Rightarrow> Closure \<Rightarrow> State \<Rightarrow>
   (ObjectHolder outcome \<times> Closure \<times> State) option" where
  "And_Execute exec lhs rhs closure s =
     and_then (exec lhs closure s)
       (\<lambda>lhs_object c1 s1.
          if IsTrue lhs_object then
            and_then (exec rhs c1 s1)
              (\<lambda>rhs_object c2 s2. Some (Inr (Own (Bool (IsTrue rhs_object))), c2, s2))
          else Some (Inr (Own (Bool False)), c1, s1))"

definition Not_Execute ::
  "exec_t \<Rightarrow> Statement \<Rightarrow> Closure \<Rightarrow> State \<Rightarrow> (ObjectHolder outcome \<times> Closure \<times> State) option" where
  "Not_Execute exec argument closure s =
     and_then (exec argument closure s)
       (\<lambda>v c1 s1. Some (Inr (Own (Bool (\<not> IsTrue v))), c1, s1))"

definition apply_Comparator ::
  "Comparator \<Rightarrow> exec_t \<Rightarrow> ObjectHolder \<Rightarrow> ObjectHolder \<Rightarrow> State \<Rightarrow> (bool outcome \<times> State) option" where
  "apply_Comparator cmp =
     (case cmp of
        EqualCmp \<Rightarrow> Equal
      | LessCmp \<Rightarrow> Less
      | NotEqualCmp \<Rightarrow> NotEqual
      | GreaterCmp \<Rightarrow> Greater
      | LessOrEqualCmp \<Rightarrow> LessOrEqual
      | GreaterOrEqualCmp \<Rightarrow> GreaterOrEqual)"

definition Comparison_Execute ::
  "exec_t \<Rightarrow> Comparator \<Rightarrow> Statement \<Rightarrow> Statement \<Rightarrow> Closure \<Rightarrow> State \<Rightarrow>
   (ObjectHolder outcome \<times> Closure \<times> State) option" where
  "Comparison_Execute exec cmp lhs rhs closure s =
     and_then (exec lhs closure s)
       (\<lambda>object_lhs c1 s1.
          and_then (exec rhs c1 s1)
            (\<lambda>object_rhs c2 s2.
               and_then (in_closure c2 (apply_Comparator cmp exec object_lhs object_rhs s2))
                 (\<lambda>result c3 s3. Some (Inr (Own (Bool result)), c3, s3))))"

fun Compound_Execute ::
  "exec_t \<Rightarrow> Statement list \<Rightarrow> Closure \<Rightarrow> State \<Rightarrow> (ObjectHolder outcome \<times> Closure \<times> State) option" where
  "Compound_Execute exec [] closure s = Some (Inr NoneHolder, closure, s)"
| "Compound_Execute exec (arg # args) closure s =
     and_then (exec arg closure s) (\<lambda>v c1 s1. Compound_Execute exec args c1 s1)"

definition IfElse_Execute ::
  "exec_t \<Rightarrow> Statement \<Rightarrow> Statement \<Rightarrow> Statement option \<Rightarrow> Closure \<Rightarrow> State \<Rightarrow>
   (ObjectHolder outcome \<times> Closure \<times> State) option" where
  "IfElse_Execute exec condition if_body else_body closure s =
     and_then (exec condition closure s)
       (\<lambda>v c1 s1.
          if IsTrue v then exec if_body c1 s1
          else (case else_body of
                  Some else_stmt \<Rightarrow> exec else_stmt c1 s1
                | None \<Rightarrow> Some (Inr NoneHolder, c1, s1)))"

text \<open>
  Modelled from the spec: \<^verbatim>\<open>Number::Print\<close> and \<^verbatim>\<open>String::Print\<close> are defined in
  runtime.h, which is not among the sources; in the spec a number prints as a decimal
  integer and a string as its bytes. \<^verbatim>\<open>os << this\<close> prints the address of the
  instance in a form that the implementation chooses; \<open>pointer_text\<close> stands for it.
\<close>

fun digits :: "nat \<Rightarrow> string" where
  "digits n =
     (if n < 10 then [char_of (48 + n)] else digits (n div 10) @ [char_of (48 + n mod 10)])"

declare digits.simps [simp del]

definition show_int :: "int \<Rightarrow> string" where
  "show_int i = (if i < 0 then CHR ''-'' # digits (nat (- i)) else digits (nat i))"

definition pointer_text :: "addr \<Rightarrow> string" where
  "pointer_text a = ''0x'' @ digits a"

definition Object_Print ::
  "exec_t \<Rightarrow> print_t \<Rightarrow> Object \<Rightarrow> State \<Rightarrow> (string outcome \<times> State) option" where
  "Object_Print exec pr object s =
     (case object of
        Number v \<Rightarrow> Some (Inr (show_int (sint v)), s)
      | String str \<Rightarrow> Some (Inr str, s)
      | Bool b \<Rightarrow> Some (Inr (if b then ''True'' else ''False''), s)
      | ClassObject cls \<Rightarrow> Some (Inr (''Class '' @ name_m cls), s)
      | ClassInstance this \<Rightarrow>
          if HasMethod (heap s this) ''__str__'' 0 then
            and_then_s (ClassInstance_Call exec this ''__str__'' [] s)
              (\<lambda>r s1. case r of
                         Holder ow obj \<Rightarrow> pr obj s1
                       | NoneHolder \<Rightarrow> Some (Inl AssertIsValidFailed, s1))
          else Some (Inr (pointer_text this), s))"

text \<open>The virtual call \<^verbatim>\<open>statement->Execute(closure, context)\<close>.\<close>

definition Statement_Execute ::
  "exec_t \<Rightarrow> print_t \<Rightarrow> Statement \<Rightarrow> Closure \<Rightarrow> State \<Rightarrow>
   (ObjectHolder outcome \<times> Closure \<times> State) option" where
  "Statement_Execute exec pr stmt closure s =
     (case stmt of
        VariableValue dotted_ids \<Rightarrow> Some (VariableValue_Execute dotted_ids closure s, closure, s)
      | Assignment var rv \<Rightarrow> Assignment_Execute exec var rv closure s
      | FieldAssignment object_ids field_name rv \<Rightarrow>
          FieldAssignment_Execute exec object_ids field_name rv closure s
      | Print args \<Rightarrow> Print_Execute exec pr args closure s
      | MethodCall object method args \<Rightarrow> MethodCall_Execute exec object method args closure s
      | MethodBody body_stmt \<Rightarrow> MethodBody_Execute exec body_stmt closure s
      | Return statement \<Rightarrow> Return_Execute exec statement closure s
      | ClassDefinition cls \<Rightarrow> ClassDefinition_Execute cls closure s
      | NewInstance class_instance args \<Rightarrow> NewInstance_Execute exec class_instance args closure s
      | Stringify argument \<Rightarrow> Stringify_Execute exec pr argument closure s
      | Add lhs rhs \<Rightarrow> Add_Execute exec lhs rhs closure s
      | Sub lhs rhs \<Rightarrow> Sub_Execute exec lhs rhs closure s
      | Mult lhs rhs \<Rightarrow> Mult_Execute exec lhs rhs closure s
      | Div lhs rhs \<Rightarrow> Div_Execute exec lhs rhs closure s
      | Or lhs rhs \<Rightarrow> Or_Execute exec lhs rhs closure s
      | And lhs rhs \<Rightarrow> And_Execute exec lhs rhs closure s
      | NotStmt argument \<Rightarrow> Not_Execute exec argument closure s
      | Comparison cmp lhs rhs \<Rightarrow> Comparison_Execute exec cmp lhs rhs closure s
      | Compound args \<Rightarrow> Compound_Execute exec args closure s
      | IfElse condition if_body else_body \<Rightarrow>
          IfElse_Execute exec condition if_body else_body closure s)"

text \<open>
  The interpreter, with fuel: \<open>Execute n\<close> and \<open>Print_object n\<close> follow calls nested at
  most \<open>n\<close> deep and are \<open>None\<close> where the nesting goes deeper. Every \<^verbatim>\<open>Execute\<close> and
  every \<^verbatim>\<open>Print\<close> of the source is one level.
\<close>

fun Execute ::
  "nat \<Rightarrow> Statement \<Rightarrow> Closure \<Rightarrow> State \<Rightarrow> (ObjectHolder outcome \<times> Closure \<times> State) option"
and Print_object :: "nat \<Rightarrow> Object \<Rightarrow> State \<Rightarrow> (string outcome \<times> State) option" where
  "Execute 0 stmt closure s = None"
| "Execute (Suc n) stmt closure s =
     Statement_Execute (Execute n) (Print_object n) stmt closure s"
| "Print_object 0 object s = None"
| "Print_object (Suc n) object s = Object_Print (Execute n) (Print_object n) object s"

subsection \<open>Methods in lookup order, and the programs of the examples\<close>

text \<open>
  The methods that a lookup in a class goes through, in order: its own, then those of
  its parent, and so on up the chain.
\<close>

fun class_methods :: "Class \<Rightarrow> Method list" where
  "class_methods (Class nm methods parent) =
     methods @ (case parent of Some p \<Rightarrow> class_methods p | None \<Rightarrow> [])"

text \<open>
  A class \<open>B\<close> with a method \<open>f(x)\<close> whose parent \<open>A\<close> has a method \<open>f()\<close>; a class
  \<open>Counter\<close> whose \<open>__init__(v)\<close> stores \<open>v\<close> in the field \<open>last\<close>; memories in which
  every instance is of the one or of the other class; a closure; and a program that
  executes one \<^verbatim>\<open>NewInstance\<close> node twice and sets a field in between.
\<close>

definition class_A :: Class where
  "class_A = Class ''A'' [Method ''f'' [] (MethodBody (Return (VariableValue [''self''])))] None"

definition class_B :: Class where
  "class_B = Class ''B'' [Method ''f'' [''x''] (MethodBody (Return (VariableValue [''x''])))]
               (Some class_A)"

definition state_B :: State where
  "state_B = \<lparr>output_stream = [], heap = (\<lambda>a. \<lparr>cls_m = class_B, closure_m = Map.empty\<rparr>)\<rparr>"

definition closure_xy :: Closure where
  "closure_xy = [''x'' \<mapsto> Holder Owning (Number 0), ''y'' \<mapsto> Holder Owning (Number 7)]"

definition class_Counter :: Class where
  "class_Counter = Class ''Counter''
     [Method ''__init__'' [''v'']
        (MethodBody (FieldAssignment [''self''] ''last'' (VariableValue [''v''])))]
     None"

definition state_Counter :: State where
  "state_Counter =
     \<lparr>output_stream = [], heap = (\<lambda>a. \<lparr>cls_m = class_Counter, closure_m = Map.empty\<rparr>)\<rparr>"

definition twice :: Statement where
  "twice = Compound
     [Assignment ''p'' (NewInstance 0 [VariableValue [''y'']]),
      FieldAssignment [''p''] ''mark'' (VariableValue [''y'']),
      Assignment ''q'' (NewInstance 0 [VariableValue [''x'']])]"

text \<open>
  A class \<open>Cmp\<close> whose \<open>__lt__(other)\<close> stores \<open>other\<close> in the field \<open>seen\<close> and returns
  nothing, and whose \<open>__eq__(other)\<close> returns the field \<open>seen\<close>; a memory whose instances
  are of that class and have \<open>seen = 0\<close>; and that memory after \<open>__lt__(5)\<close> on the
  instance at address 0.
\<close>

definition class_Cmp :: Class where
  "class_Cmp = Class ''Cmp''
     [Method ''__lt__'' [''other'']
        (MethodBody (Compound [FieldAssignment [''self''] ''seen'' (VariableValue [''other''])])),
      Method ''__eq__'' [''other'']
        (MethodBody (Return (VariableValue [''self'', ''seen''])))]
     None"

definition state_Cmp :: State where
  "state_Cmp =
     \<lparr>output_stream = [],
      heap = (\<lambda>a. \<lparr>cls_m = class_Cmp, closure_m = [''seen'' \<mapsto> Holder Owning (Number 0)]\<rparr>)\<rparr>"

definition state_Cmp_seen :: State where
  "state_Cmp_seen = set_field 0 ''seen'' (Holder Owning (Number 5)) state_Cmp"

definition new_Counter :: Statement where
  "new_Counter = NewInstance 0 [Print [VariableValue [''y'']], VariableValue [''missing'']]"

section \<open>Properties of the lexer\<close>

subsection \<open>The indentation scenario\<close>

text \<open>
  Claim C2. For the two lines \<^verbatim>\<open>if x:\<close> and \<^verbatim>\<open>  print x\<close>, each ended by a newline, the
  constructor leaves the cursor on \<open>If\<close>, and that token followed by the results of
  nine calls of \<^verbatim>\<open>NextToken\<close> is the sequence If, Id(x), Char(:), Newline, Indent, Print,
  Id(x), Newline, Dedent, Eof.
\<close>

theorem C2_indentation_scenario:
  "map_sum id CurrentToken (Lexer_new ndebug (istream_of ''if x:\<newline>  print x\<newline>'')) = Inr IfTok
   \<and> Lexer_tokens ndebug 9 (istream_of ''if x:\<newline>  print x\<newline>'') =
       Inr [IfTok, IdTok ''x'', CharTok CHR '':'', NewlineTok, IndentTok, PrintTok, IdTok ''x'',
            NewlineTok, DedentTok, EofTok]"
  by code_simp

subsection \<open>The end of the input\<close>

lemma LoadNextToken_at_end:
  assumes "chars (input_m l) = []"
  shows "\<exists>s'. chars s' = [] \<and> LoadNextToken ndebug l =
     Inr (if \<not> begin_m l then l\<lparr>input_m := s', begin_m := True, indents_m := 0, current_token_m := NewlineTok\<rparr>
          else if indent_pos_m l > 0 then l\<lparr>input_m := s', indent_pos_m := indent_pos_m l - 1, current_token_m := DedentTok\<rparr>
          else l\<lparr>input_m := s', current_token_m := EofTok\<rparr>)"
proof -
  obtain r s where p: "istream_peek (input_m l) = (r, s)" by (cases "istream_peek (input_m l)")
  with assms have r: "r = None" and s: "chars s = []"
    by (auto simp: istream_peek_def split: if_splits)
  have g: "chars (istream_getline s) = []" using s
    by (auto simp: istream_getline_def)
  show ?thesis
  proof (cases "begin_m l")
    case False
    with p r s g show ?thesis
      by (subst LoadNextToken.simps) (auto simp: narrow_def is_eof_def PassString_def intro!: exI[of _ "istream_getline s"])
  next
    case True
    with p r s show ?thesis
      by (subst LoadNextToken.simps) (auto simp: narrow_def is_eof_def intro!: exI[of _ s])
  qed
qed

lemma NextToken_at_end:
  assumes "chars (input_m l) = []"
  shows "\<exists>l'. NextToken ndebug l =
           Inr (if \<not> begin_m l then NewlineTok else if indent_pos_m l > 0 then DedentTok else EofTok, l')
         \<and> chars (input_m l') = [] \<and> begin_m l'
         \<and> indent_pos_m l' = (if begin_m l then indent_pos_m l - 1 else indent_pos_m l)"
  using LoadNextToken_at_end[OF assms, of ndebug]
  by (auto simp: NextToken_def)

lemma take_replicate_more:
  "take n (xs @ replicate (Suc n) y) = take n (xs @ replicate n y)"
  by (simp add: min_def del: replicate.simps)

lemma NextTokens_at_end:
  "chars (input_m l) = [] \<Longrightarrow>
   map_sum id fst (NextTokens ndebug n l) = Inr (end_of_input_tokens (begin_m l) (indent_pos_m l) n)"
proof (induction n arbitrary: l)
  case 0
  show ?case by (simp add: end_of_input_tokens_def)
next
  case (Suc n)
  from NextToken_at_end[OF Suc.prems, of ndebug] obtain l' where
    nt: "NextToken ndebug l =
           Inr (if \<not> begin_m l then NewlineTok else if indent_pos_m l > 0 then DedentTok else EofTok, l')"
    and e: "chars (input_m l') = []" and b: "begin_m l'"
    and ip: "indent_pos_m l' = (if begin_m l then indent_pos_m l - 1 else indent_pos_m l)"
    by blast
  have ih: "map_sum id fst (NextTokens ndebug n l') =
      Inr (end_of_input_tokens (begin_m l') (indent_pos_m l') n)"
    by (rule Suc.IH[OF e])
  obtain ts l'' where r: "NextTokens ndebug n l' = Inr (ts, l'')"
    using ih by (cases "NextTokens ndebug n l'") auto
  with ih b ip
  have ts: "ts = end_of_input_tokens True (if begin_m l then indent_pos_m l - 1 else indent_pos_m l) n"
    by simp
  show ?case
  proof (cases "begin_m l")
    case False
    with nt r ts show ?thesis
      by (simp add: end_of_input_tokens_def take_replicate_more[of n "replicate (indent_pos_m l) DedentTok", simplified])
  next
    case True
    show ?thesis
    proof (cases "indent_pos_m l")
      case 0
      with True nt r ts show ?thesis by (simp add: end_of_input_tokens_def)
    next
      case (Suc k)
      with True nt r ts show ?thesis
        by (simp add: end_of_input_tokens_def take_replicate_more[of n "replicate k DedentTok", simplified])
    qed
  qed
qed

text \<open>
  Claim C5. In every lexer state whose input is exhausted, \<^verbatim>\<open>NextToken\<close> returns
  \<open>Newline\<close> when \<^verbatim>\<open>begin_\<close> is false and sets it; otherwise it returns \<open>Dedent\<close> and
  takes one from \<^verbatim>\<open>indent_pos_\<close> while that is positive, and \<open>Eof\<close> once it is zero. The
  input stays exhausted, so that any \<open>n\<close> calls return the first \<open>n\<close> tokens of: the
  pending \<open>Newline\<close>, \<^verbatim>\<open>indent_pos_\<close> times \<open>Dedent\<close>, then \<open>Eof\<close> only.
\<close>

theorem C5_end_of_input:
  assumes "chars (input_m l) = []"
  shows "(\<exists>l'. NextToken ndebug l =
            Inr (if \<not> begin_m l then NewlineTok
                 else if indent_pos_m l > 0 then DedentTok else EofTok, l')
          \<and> chars (input_m l') = [] \<and> begin_m l'
          \<and> indent_pos_m l' = (if begin_m l then indent_pos_m l - 1 else indent_pos_m l))
       \<and> map_sum id fst (NextTokens ndebug n l) =
           Inr (take n ((if begin_m l then [] else [NewlineTok])
                        @ replicate (indent_pos_m l) DedentTok @ replicate n EofTok))"
  using NextToken_at_end[OF assms, of ndebug] NextTokens_at_end[OF assms, of ndebug n]
  unfolding end_of_input_tokens_def by blast

theorem C5_end_of_input_witness:
  "map_sum id fst
     (NextTokens False 6
        \<lparr>input_m = istream_of [], current_token_m = CharTok CHR '':'', begin_m = False,
         indents_m = 0, indent_pos_m = 2\<rparr>)
   = Inr [NewlineTok, DedentTok, DedentTok, EofTok, EofTok, EofTok]"
  using C5_end_of_input[of "\<lparr>input_m = istream_of [], current_token_m = CharTok CHR '':'', begin_m = False,
         indents_m = 0, indent_pos_m = 2\<rparr>" False 6]
  by (simp add: istream_of_def eval_nat_numeral)


subsection \<open>Escapes in string literals\<close>

lemma ParseString_loop_escape:
  assumes "good s" and "chars s = CHR 0x5C # e # rest"
  shows "ParseString_loop start s line c =
     (if e = CHR 0x22 then ParseString_loop start (s\<lparr>chars := rest\<rparr>) (line @ [CHR 0x22]) (Some (CHR 0x5C))
      else if e = CHR 0x27 then ParseString_loop start (s\<lparr>chars := rest\<rparr>) (line @ [CHR 0x27]) (Some (CHR 0x5C))
      else if e = CHR ''n'' then ParseString_loop start (s\<lparr>chars := rest\<rparr>) (line @ [CHR 0x0A]) (Some (CHR 0x5C))
      else if e = CHR ''t'' then ParseString_loop start (s\<lparr>chars := rest\<rparr>) (line @ [CHR 0x09]) (Some (CHR 0x5C))
      else ParseString_loop start (s\<lparr>chars := rest\<rparr>) line (Some (CHR 0x5C)))"
proof -
  have g1: "istream_get s = (Some (CHR 0x5C), s\<lparr>chars := e # rest\<rparr>)"
    using assms by (simp add: istream_get_def)
  have g2: "istream_get (s\<lparr>chars := e # rest\<rparr>) = (Some e, s\<lparr>chars := rest\<rparr>)"
    using assms by (simp add: istream_get_def good_def)
  show ?thesis
    by (subst ParseString_loop.simps) (simp add: g1 g2)
qed

lemma ParseString_loop_scanned:
  "scanned (ParseString_loop start s line c) = scanned (ParseString_loop start s line c')"
  by (subst ParseString_loop.simps, subst (2) ParseString_loop.simps)
     (simp add: scanned_def split: prod.splits option.splits)

lemma Lexer_escapes_debug:
  "map_sum id CurrentToken (Lexer_new False
     (istream_of [CHR 0x22, CHR ''a'', CHR 0x5C, CHR ''t'', CHR ''b'', CHR 0x5C, CHR ''n'', CHR 0x22]))
     = Inr (StringTok [CHR ''a'', CHR 0x09, CHR ''b'', CHR 0x0A])"
  by code_simp

lemma Lexer_escapes_ndebug:
  "map_sum id CurrentToken (Lexer_new True
     (istream_of [CHR 0x22, CHR ''a'', CHR 0x5C, CHR ''t'', CHR ''b'', CHR 0x5C, CHR ''n'', CHR 0x22]))
     = Inr (StringTok [CHR ''a'', CHR 0x09, CHR ''b'', CHR 0x0A])"
  by code_simp

lemma ParseString_escapes_debug:
  "ParseString False
     (istream_of [CHR 0x22, CHR ''a'', CHR 0x5C, CHR ''t'', CHR ''b'', CHR 0x5C, CHR ''n'', CHR 0x22])
     = Inr ([CHR ''a'', CHR 0x09, CHR ''b'', CHR 0x0A], \<lparr>chars = [], eofbit = False, failbit = False\<rparr>)"
  by code_simp

lemma ParseString_escapes_ndebug:
  "ParseString True
     (istream_of [CHR 0x22, CHR ''a'', CHR 0x5C, CHR ''t'', CHR ''b'', CHR 0x5C, CHR ''n'', CHR 0x22])
     = Inr ([CHR ''a'', CHR 0x09, CHR ''b'', CHR 0x0A], \<lparr>chars = [], eofbit = False, failbit = False\<rparr>)"
  by code_simp

text \<open>
  Claim C6. The literal \<^verbatim>\<open>"a\tb\n"\<close> is read as the four characters a, tab, b, newline,
  by \<^verbatim>\<open>ParseString\<close> and as the \<open>String\<close> token of the lexer.
  At a backslash the loop of \<^verbatim>\<open>ParseString\<close> consumes the backslash and the character
  after it: for a double quote, a single quote, \<open>n\<close> and \<open>t\<close> it appends the double quote,
  the single quote, the newline and the tab; for every other character it appends
  nothing, so that the stream and the text it ends with are those it would end with had
  the two characters not been in the input.
\<close>

theorem C6_string_escapes:
  "ParseString ndebug
     (istream_of [CHR 0x22, CHR ''a'', CHR 0x5C, CHR ''t'', CHR ''b'', CHR 0x5C, CHR ''n'', CHR 0x22])
     = Inr ([CHR ''a'', CHR 0x09, CHR ''b'', CHR 0x0A], \<lparr>chars = [], eofbit = False, failbit = False\<rparr>)
   \<and> map_sum id CurrentToken (Lexer_new ndebug
        (istream_of [CHR 0x22, CHR ''a'', CHR 0x5C, CHR ''t'', CHR ''b'', CHR 0x5C, CHR ''n'', CHR 0x22]))
     = Inr (StringTok [CHR ''a'', CHR 0x09, CHR ''b'', CHR 0x0A])
   \<and> (good s \<longrightarrow> chars s = CHR 0x5C # e # rest \<longrightarrow>
        ParseString_loop start s line c =
          (if e = CHR 0x22 then ParseString_loop start (s\<lparr>chars := rest\<rparr>) (line @ [CHR 0x22]) (Some (CHR 0x5C))
           else if e = CHR 0x27 then ParseString_loop start (s\<lparr>chars := rest\<rparr>) (line @ [CHR 0x27]) (Some (CHR 0x5C))
           else if e = CHR ''n'' then ParseString_loop start (s\<lparr>chars := rest\<rparr>) (line @ [CHR 0x0A]) (Some (CHR 0x5C))
           else if e = CHR ''t'' then ParseString_loop start (s\<lparr>chars := rest\<rparr>) (line @ [CHR 0x09]) (Some (CHR 0x5C))
           else ParseString_loop start (s\<lparr>chars := rest\<rparr>) line (Some (CHR 0x5C))))
   \<and> (good s \<longrightarrow> chars s = CHR 0x5C # e # rest \<longrightarrow>
        e \<notin> {CHR 0x22, CHR 0x27, CHR ''n'', CHR ''t''} \<longrightarrow>
        scanned (ParseString_loop start s line c)
          = scanned (ParseString_loop start (s\<lparr>chars := rest\<rparr>) line c))"
proof (intro conjI impI)
  show "ParseString ndebug
     (istream_of [CHR 0x22, CHR ''a'', CHR 0x5C, CHR ''t'', CHR ''b'', CHR 0x5C, CHR ''n'', CHR 0x22])
     = Inr ([CHR ''a'', CHR 0x09, CHR ''b'', CHR 0x0A], \<lparr>chars = [], eofbit = False, failbit = False\<rparr>)"
    using ParseString_escapes_debug ParseString_escapes_ndebug by (cases ndebug) simp_all
next
  show "map_sum id CurrentToken (Lexer_new ndebug
        (istream_of [CHR 0x22, CHR ''a'', CHR 0x5C, CHR ''t'', CHR ''b'', CHR 0x5C, CHR ''n'', CHR 0x22]))
     = Inr (StringTok [CHR ''a'', CHR 0x09, CHR ''b'', CHR 0x0A])"
    using Lexer_escapes_debug Lexer_escapes_ndebug by (cases ndebug) simp_all
next
  assume "good s" "chars s = CHR 0x5C # e # rest"
  then show "ParseString_loop start s line c =
          (if e = CHR 0x22 then ParseString_loop start (s\<lparr>chars := rest\<rparr>) (line @ [CHR 0x22]) (Some (CHR 0x5C))
           else if e = CHR 0x27 then ParseString_loop start (s\<lparr>chars := rest\<rparr>) (line @ [CHR 0x27]) (Some (CHR 0x5C))
           else if e = CHR ''n'' then ParseString_loop start (s\<lparr>chars := rest\<rparr>) (line @ [CHR 0x0A]) (Some (CHR 0x5C))
           else if e = CHR ''t'' then ParseString_loop start (s\<lparr>chars := rest\<rparr>) (line @ [CHR 0x09]) (Some (CHR 0x5C))
           else ParseString_loop start (s\<lparr>chars := rest\<rparr>) line (Some (CHR 0x5C)))"
    by (rule ParseString_loop_escape)
next
  assume a: "good s" "chars s = CHR 0x5C # e # rest"
    and e: "e \<notin> {CHR 0x22, CHR 0x27, CHR ''n'', CHR ''t''}"
  from ParseString_loop_escape[OF a, of start line c] e
  have "ParseString_loop start s line c
          = ParseString_loop start (s\<lparr>chars := rest\<rparr>) line (Some (CHR 0x5C))"
    by simp
  then show "scanned (ParseString_loop start s line c)
          = scanned (ParseString_loop start (s\<lparr>chars := rest\<rparr>) line c)"
    by (simp add: ParseString_loop_scanned[of start "s\<lparr>chars := rest\<rparr>" line "Some (CHR 0x5C)" c])
qed

theorem C6_string_escapes_witness:
  "scanned (ParseString_loop (CHR 0x22)
      (istream_of [CHR 0x5C, CHR ''q'', CHR ''b'', CHR 0x22, CHR ''+'']) ''a'' (Some (CHR ''a'')))
   = Inr (istream_of ''+'', ''ab'')
   \<and> ParseString_loop (CHR 0x22)
      (istream_of [CHR 0x5C, CHR ''t'', CHR ''b'', CHR 0x22, CHR ''+'']) ''a'' (Some (CHR ''a''))
   = Inr (istream_of ''+'', [CHR ''a'', CHR 0x09, CHR ''b''], Some (CHR 0x22))"
proof -
  have g: "good (istream_of xs)" for xs by (simp add: good_def istream_of_def)
  have c: "chars (istream_of (x # y # xs)) = x # y # xs" for x y xs by (simp add: istream_of_def)
  have u: "(istream_of (x # y # xs))\<lparr>chars := xs\<rparr> = istream_of xs" for x y xs
    by (simp add: istream_of_def)
  have e: "CHR ''q'' \<notin> {CHR 0x22, CHR 0x27, CHR ''n'', CHR ''t''}" by simp
  have "scanned (ParseString_loop (CHR 0x22)
      (istream_of [CHR 0x5C, CHR ''q'', CHR ''b'', CHR 0x22, CHR ''+'']) ''a'' (Some (CHR ''a'')))
      = scanned (ParseString_loop (CHR 0x22)
          ((istream_of [CHR 0x5C, CHR ''q'', CHR ''b'', CHR 0x22, CHR ''+''])\<lparr>chars := [CHR ''b'', CHR 0x22, CHR ''+'']\<rparr>)
          ''a'' (Some (CHR ''a'')))"
    by (rule C6_string_escapes[THEN conjunct2, THEN conjunct2, THEN conjunct2, rule_format,
          OF g c e])
  also have "\<dots> = Inr (istream_of ''+'', ''ab'')" by code_simp
  finally have A: "scanned (ParseString_loop (CHR 0x22)
      (istream_of [CHR 0x5C, CHR ''q'', CHR ''b'', CHR 0x22, CHR ''+'']) ''a'' (Some (CHR ''a'')))
   = Inr (istream_of ''+'', ''ab'')" .
  have "ParseString_loop (CHR 0x22)
      (istream_of [CHR 0x5C, CHR ''t'', CHR ''b'', CHR 0x22, CHR ''+'']) ''a'' (Some (CHR ''a''))
      = ParseString_loop (CHR 0x22)
          ((istream_of [CHR 0x5C, CHR ''t'', CHR ''b'', CHR 0x22, CHR ''+''])\<lparr>chars := [CHR ''b'', CHR 0x22, CHR ''+'']\<rparr>)
          (''a'' @ [CHR 0x09]) (Some (CHR 0x5C))"
    using C6_string_escapes[where e = "CHR ''t''" and rest = "[CHR ''b'', CHR 0x22, CHR ''+'']"
        and start = "CHR 0x22" and line = "''a''" and c = "Some (CHR ''a'')",
        THEN conjunct2, THEN conjunct2, THEN conjunct1, rule_format, OF g c]
    by simp
  also have "\<dots> = Inr (istream_of ''+'', [CHR ''a'', CHR 0x09, CHR ''b''], Some (CHR 0x22))"
    by code_simp
  finally have B: "ParseString_loop (CHR 0x22)
      (istream_of [CHR 0x5C, CHR ''t'', CHR ''b'', CHR 0x22, CHR ''+'']) ''a'' (Some (CHR ''a''))
   = Inr (istream_of ''+'', [CHR ''a'', CHR 0x09, CHR ''b''], Some (CHR 0x22))" .
  from A B show ?thesis by (rule conjI)
qed

subsection \<open>A string literal that is not closed\<close>

lemma ParseString_loop_unterminated:
  "good s \<Longrightarrow> chars s = lit \<Longrightarrow> CHR 0x5C \<notin> set lit \<Longrightarrow> start \<notin> set lit \<Longrightarrow>
   ParseString_loop start s line c =
     Inr (s\<lparr>chars := [], eofbit := True, failbit := True\<rparr>, line @ lit,
          if lit = [] then c else Some (last lit))"
proof (induction lit arbitrary: s line c)
  case Nil
  then show ?case
    by (subst ParseString_loop.simps) (simp add: istream_get_def)
next
  case (Cons x xs)
  from Cons.prems have g: "istream_get s = (Some x, s\<lparr>chars := xs\<rparr>)"
    by (simp add: istream_get_def)
  have gd: "good (s\<lparr>chars := xs\<rparr>)" using Cons.prems by (simp add: good_def)
  from Cons.prems have ih:
    "ParseString_loop start (s\<lparr>chars := xs\<rparr>) (line @ [x]) (Some x) =
       Inr (s\<lparr>chars := [], eofbit := True, failbit := True\<rparr>, (line @ [x]) @ xs,
            if xs = [] then Some x else Some (last xs))"
    using Cons.IH[OF gd, of "line @ [x]" "Some x"] by simp
  from Cons.prems have "x \<noteq> CHR 0x5C" "x \<noteq> start" by auto
  then show ?case
    by (subst ParseString_loop.simps) (simp add: g ih)
qed

lemma ParseString_unterminated:
  assumes "CHR 0x5C \<notin> set lit" and "q \<notin> set lit"
  shows "ParseString ndebug (istream_of (q # lit)) =
     (if ndebug then Inr (lit, \<lparr>chars = [], eofbit = True, failbit = True\<rparr>)
      else if lit = [] then Inl UninitializedRead else Inl AssertAbort)"
proof -
  have g: "istream_get (istream_of (q # lit)) = (Some q, istream_of lit)"
    by (simp add: istream_get_def istream_of_def good_def)
  have l: "ParseString_loop q (istream_of lit) [] None =
     Inr (\<lparr>chars = [], eofbit = True, failbit = True\<rparr>, lit,
          if lit = [] then None else Some (last lit))"
    using ParseString_loop_unterminated[of "istream_of lit" lit q "[]" None] assms
    by (simp add: istream_of_def good_def)
  have "lit \<noteq> [] \<Longrightarrow> last lit \<noteq> q" using assms(2) last_in_set by metis
  then show ?thesis
    by (simp add: ParseString_def g l narrow_def)
qed

lemma LoadNextToken_quote:
  assumes q: "q = CHR 0x22 \<or> q = CHR 0x27"
    and "good (input_m l)" and "chars (input_m l) = q # lit"
    and "\<not> (indent_pos_m l \<noteq> indents_m l \<and> begin_m l)"
  shows "LoadNextToken ndebug l =
     (case ParseString ndebug (input_m l) of
        Inl e \<Rightarrow> Inl e
      | Inr (str, s') \<Rightarrow>
          Inr (l\<lparr>input_m := s', current_token_m := StringTok str, begin_m := False\<rparr>))"
proof -
  have p: "istream_peek (input_m l) = (Some q, input_m l)"
    using assms by (simp add: istream_peek_def)
  from q have c: "\<not> is_eof q" "q \<noteq> CHR 0x0A" "q \<noteq> CHR ''#''" "q \<noteq> CHR '' ''"
    "\<not> isdigit q" "\<not> isalpha q" "q \<noteq> CHR ''_''"
    by (auto simp: is_eof_def isdigit_def isalpha_def)
  show ?thesis
    using assms(4) q
    by (subst LoadNextToken.simps)
       (auto simp: p narrow_def c Let_def split: sum.splits prod.splits)
qed

text \<open>
  Claim C7. The claim is that a literal whose opening quote is never matched raises a
  lex error. The code does not: for every such literal without a backslash, built with
  \<^verbatim>\<open>NDEBUG\<close> the lexer returns a \<open>String\<close> token with the characters up to the end of
  the input; built without it the assertion \<^verbatim>\<open>c == start\<close> fails and the process aborts,
  and when nothing follows the quote the assertion reads a \<^verbatim>\<open>c\<close> that was never
  written. No exception reaches the caller in either build.
\<close>

theorem C7_unterminated_string:
  assumes "q = CHR 0x22 \<or> q = CHR 0x27" and "CHR 0x5C \<notin> set lit" and "q \<notin> set lit"
  shows "ParseString ndebug (istream_of (q # lit)) =
           (if ndebug then Inr (lit, \<lparr>chars = [], eofbit = True, failbit = True\<rparr>)
            else if lit = [] then Inl UninitializedRead else Inl AssertAbort)
       \<and> map_sum id CurrentToken (Lexer_new ndebug (istream_of (q # lit))) =
           (if ndebug then Inr (StringTok lit)
            else if lit = [] then Inl UninitializedRead else Inl AssertAbort)"
proof -
  let ?l = "\<lparr>input_m = istream_of (q # lit), current_token_m = NumberTok 0, begin_m = True,
        indents_m = 0, indent_pos_m = 0\<rparr>"
  have "LoadNextToken ndebug ?l =
     (case ParseString ndebug (input_m ?l) of
        Inl e \<Rightarrow> Inl e
      | Inr (str, s') \<Rightarrow>
          Inr (?l\<lparr>input_m := s', current_token_m := StringTok str, begin_m := False\<rparr>))"
    by (rule LoadNextToken_quote[OF assms(1), of _ lit]) (simp_all add: istream_of_def good_def)
  then show ?thesis
    using ParseString_unterminated[OF assms(2,3), of ndebug]
    by (simp add: Lexer_new_def CurrentToken_def)
qed

theorem C7_unterminated_string_witness:
  "ParseString False (istream_of [CHR 0x22, CHR ''a'', CHR ''b'', CHR ''c'']) = Inl AssertAbort
   \<and> ParseString True (istream_of [CHR 0x22, CHR ''a'', CHR ''b'', CHR ''c''])
       = Inr (''abc'', \<lparr>chars = [], eofbit = True, failbit = True\<rparr>)
   \<and> map_sum id CurrentToken (Lexer_new True (istream_of [CHR 0x22, CHR ''a'', CHR ''b'', CHR ''c'']))
       = Inr (StringTok ''abc'')
   \<and> map_sum id CurrentToken (Lexer_new False (istream_of [CHR 0x22, CHR ''a'', CHR ''b'', CHR ''c'']))
       = Inl AssertAbort
   \<and> ParseString False (istream_of [CHR 0x22]) = Inl UninitializedRead"
  using C7_unterminated_string[of "CHR 0x22" "''abc''" False]
    C7_unterminated_string[of "CHR 0x22" "''abc''" True]
    C7_unterminated_string[of "CHR 0x22" "[]" False]
  by simp

section \<open>Properties of the runtime\<close>

subsection \<open>Calling a method\<close>

lemma find_append_first:
  "find P (xs @ ys) = (case find P xs of Some x \<Rightarrow> Some x | None \<Rightarrow> find P ys)"
  by (induction xs) auto

lemma GetMethod_find:
  "GetMethod cls n = find (\<lambda>method. name method = n) (class_methods cls)"
proof (induction cls n rule: GetMethod.induct)
  case (1 nm methods parent n)
  show ?case
  proof (cases "find (\<lambda>method. name method = n) methods")
    case (Some m)
    then show ?thesis by (simp add: find_append_first)
  next
    case None
    show ?thesis
    proof (cases parent)
      case None
      with \<open>find (\<lambda>method. name method = n) methods = None\<close> show ?thesis
        by (simp add: find_append_first)
    next
      case (Some p)
      with "1.IH"[of p] \<open>find (\<lambda>method. name method = n) methods = None\<close> show ?thesis
        by (simp add: find_append_first)
    qed
  qed
qed

lemma foldl_bind_params:
  "foldl (\<lambda>cl (param, arg). cl(param \<mapsto> arg)) closure (zip params args)
     = closure(params [\<mapsto>] args)"
proof (induction params arbitrary: closure args)
  case Nil
  show ?case by simp
next
  case (Cons p ps)
  show ?case
  proof (cases args)
    case Nil
    then show ?thesis by simp
  next
    case (Cons a as)
    have "foldl (\<lambda>cl (param, arg). cl(param \<mapsto> arg)) closure (zip (p # ps) (a # as))
        = foldl (\<lambda>cl (param, arg). cl(param \<mapsto> arg)) (closure(p \<mapsto> a)) (zip ps as)"
      by (simp only: zip_Cons_Cons foldl_Cons case_prod_conv)
    also have "\<dots> = (closure(p \<mapsto> a))(ps [\<mapsto>] as)"
      by (rule Cons.IH)
    also have "\<dots> = closure(p # ps [\<mapsto>] a # as)"
      by (simp only: map_upds_Cons)
    finally show ?thesis by (simp only: Cons)
  qed
qed

lemma ClassInstance_Call_eq:
  "ClassInstance_Call exec this method actual_args s =
     (case find (\<lambda>m. name m = method) (class_methods (cls_m (heap s this))) of
        Some m \<Rightarrow>
          if length (formal_params m) = length actual_args
          then drop_closure
                 (exec (body m)
                    ([''self'' \<mapsto> Holder NonOwning (ClassInstance this)]
                       (formal_params m [\<mapsto>] actual_args)) s)
          else Some (Inl (RuntimeError (''Error calling method '' @ method)), s)
      | None \<Rightarrow> Some (Inl (RuntimeError (''Error calling method '' @ method)), s))"
  by (simp add: ClassInstance_Call_def HasMethod_def GetMethod_find foldl_bind_params Share_def
           split: option.splits)

text \<open>
  Claim C1. \<^verbatim>\<open>ClassInstance::Call\<close> looks for the first method of that name among the
  methods of the class of the instance and then of its ancestors. When that method has
  as many formal parameters as there are actual arguments, its body is executed in a
  fresh closure that binds \<open>self\<close> to a non-owning holder of the instance and then the
  formal parameters, in order, to the actual arguments, and the outcome of the body is
  the outcome of the call. In every other case the call throws the error
  \<open>Error calling method\<close> and changes nothing. In particular, when the class itself has a
  method of that name with another number of parameters, the call fails whatever its
  ancestors define.
\<close>

theorem C1_method_call:
  "ClassInstance_Call exec this method actual_args s =
     (case find (\<lambda>m. name m = method) (class_methods (cls_m (heap s this))) of
        Some m \<Rightarrow>
          if length (formal_params m) = length actual_args
          then drop_closure
                 (exec (body m)
                    ([''self'' \<mapsto> Holder NonOwning (ClassInstance this)]
                       (formal_params m [\<mapsto>] actual_args)) s)
          else Some (Inl (RuntimeError (''Error calling method '' @ method)), s)
      | None \<Rightarrow> Some (Inl (RuntimeError (''Error calling method '' @ method)), s))
   \<and> (cls_m (heap s this) = Class nm methods parent \<longrightarrow>
        find (\<lambda>m. name m = method) methods = Some m' \<longrightarrow>
        length (formal_params m') \<noteq> length actual_args \<longrightarrow>
        ClassInstance_Call exec this method actual_args s
          = Some (Inl (RuntimeError (''Error calling method '' @ method)), s))"
proof (intro conjI impI)
  show "ClassInstance_Call exec this method actual_args s =
     (case find (\<lambda>m. name m = method) (class_methods (cls_m (heap s this))) of
        Some m \<Rightarrow>
          if length (formal_params m) = length actual_args
          then drop_closure
                 (exec (body m)
                    ([''self'' \<mapsto> Holder NonOwning (ClassInstance this)]
                       (formal_params m [\<mapsto>] actual_args)) s)
          else Some (Inl (RuntimeError (''Error calling method '' @ method)), s)
      | None \<Rightarrow> Some (Inl (RuntimeError (''Error calling method '' @ method)), s))"
    by (rule ClassInstance_Call_eq)
next
  assume "cls_m (heap s this) = Class nm methods parent"
    and "find (\<lambda>m. name m = method) methods = Some m'"
    and "length (formal_params m') \<noteq> length actual_args"
  then show "ClassInstance_Call exec this method actual_args s
          = Some (Inl (RuntimeError (''Error calling method '' @ method)), s)"
    by (simp add: ClassInstance_Call_eq find_append_first)
qed

theorem C1_method_call_witness:
  "ClassInstance_Call (Execute 3) 0 ''f'' [] state_B
     = Some (Inl (RuntimeError ''Error calling method f''), state_B)
   \<and> ClassInstance_Call (Execute 3) 0 ''f'' [Holder Owning (Number 7)] state_B
     = Some (Inr (Holder Owning (Number 7)), state_B)"
proof -
  have c: "cls_m (heap state_B 0) = Class ''B'' [Method ''f'' [''x''] (MethodBody (Return (VariableValue [''x''])))]
               (Some class_A)"
    by (simp add: state_B_def class_B_def)
  have A: "ClassInstance_Call (Execute 3) 0 ''f'' [] state_B
     = Some (Inl (RuntimeError ''Error calling method f''), state_B)"
    using C1_method_call[THEN conjunct2, rule_format, OF c, of "''f''" _ "[]" "Execute 3"]
    by simp
  have B: "ClassInstance_Call (Execute 3) 0 ''f'' [Holder Owning (Number 7)] state_B
     = Some (Inr (Holder Owning (Number 7)), state_B)"
    unfolding C1_method_call[THEN conjunct1]
    by (simp add: c eval_nat_numeral Statement_Execute_def MethodBody_Execute_def Return_Execute_def
          and_then_def drop_closure_def)
  from A B show ?thesis by (rule conjI)
qed

subsection \<open>Equality\<close>

lemma Equal_Number:
  "Equal exec (Holder o1 (Number a)) (Holder o2 (Number b)) s = Some (Inr (a = b), s)"
  by (simp add: Equal_def TryAs_Number_def)

lemma Equal_String:
  "Equal exec (Holder o1 (String x)) (Holder o2 (String y)) s = Some (Inr (x = y), s)"
  by (simp add: Equal_def TryAs_Number_def TryAs_String_def)

lemma Equal_Bool:
  "Equal exec (Holder o1 (Bool p)) (Holder o2 (Bool q)) s = Some (Inr (p = q), s)"
  by (simp add: Equal_def TryAs_Number_def TryAs_String_def TryAs_Bool_def)

lemma Equal_None: "Equal exec NoneHolder NoneHolder s = Some (Inr True, s)"
  by (simp add: Equal_def TryAs_Number_def TryAs_String_def TryAs_Bool_def
        TryAs_ClassInstance_def)

lemma Equal_ClassInstance:
  "Equal exec (Holder o1 (ClassInstance a)) rhs s =
     (case ClassInstance_Call exec a ''__eq__'' [rhs] s of
        None \<Rightarrow> None
      | Some (Inl e, s') \<Rightarrow> Some (Inl e, s')
      | Some (Inr r, s') \<Rightarrow> Some (Inr (IsTrue r), s'))"
proof -
  have "TryAs_Number (Holder o1 (ClassInstance a)) = None"
       "TryAs_String (Holder o1 (ClassInstance a)) = None"
       "TryAs_Bool (Holder o1 (ClassInstance a)) = None"
       "TryAs_ClassInstance (Holder o1 (ClassInstance a)) = Some a"
    by (simp_all add: TryAs_Number_def TryAs_String_def TryAs_Bool_def TryAs_ClassInstance_def)
  then show ?thesis
    by (simp add: Equal_def and_then_s_def)
qed

lemma Equal_otherwise:
  assumes n: "TryAs_Number lhs = None \<or> TryAs_Number rhs = None"
    and st: "TryAs_String lhs = None \<or> TryAs_String rhs = None"
    and b: "TryAs_Bool lhs = None \<or> TryAs_Bool rhs = None"
    and i: "TryAs_ClassInstance lhs = None"
    and nn: "lhs \<noteq> NoneHolder \<or> rhs \<noteq> NoneHolder"
  shows "Equal exec lhs rhs s = Some (Inl (RuntimeError ''Cannot compare objects for equality''), s)"
proof -
  have 1: "(case (TryAs_Number lhs, TryAs_Number rhs) of
              (Some number_l, Some number_r) \<Rightarrow> f number_l number_r | _ \<Rightarrow> d) = d" for f and d :: 'x
    using n by (auto split: option.splits)
  have 2: "(case (TryAs_String lhs, TryAs_String rhs) of
              (Some l, Some r) \<Rightarrow> f l r | _ \<Rightarrow> d) = d" for f and d :: 'x
    using st by (auto split: option.splits)
  have 3: "(case (TryAs_Bool lhs, TryAs_Bool rhs) of
              (Some l, Some r) \<Rightarrow> f l r | _ \<Rightarrow> d) = d" for f and d :: 'x
    using b by (auto split: option.splits)
  show ?thesis
    unfolding Equal_def using nn by (simp only: 1 2 3 i option.case) simp
qed

lemma sint_eq_iff: "(sint a = sint b) = (a = (b :: 'a :: len word))"
  by (auto intro: signed_word_eqI)

text \<open>
  Claim C3. \<^verbatim>\<open>Equal\<close> compares two numbers, two strings or two booleans by value and
  leaves the state as it is; two empty holders are equal; when the left holder is a
  class instance the result is \<^verbatim>\<open>IsTrue\<close> of what its \<open>__eq__\<close> returns for the right
  holder, and a failure of that call is the failure of \<^verbatim>\<open>Equal\<close>; in every other case
  \<^verbatim>\<open>Equal\<close> throws \<open>Cannot compare objects for equality\<close>.
\<close>

theorem C3_equal:
  "Equal exec (Holder o1 (Number a)) (Holder o2 (Number b)) s = Some (Inr (sint a = sint b), s)
   \<and> Equal exec (Holder o1 (String x)) (Holder o2 (String y)) s = Some (Inr (x = y), s)
   \<and> Equal exec (Holder o1 (Bool p)) (Holder o2 (Bool q)) s = Some (Inr (p = q), s)
   \<and> Equal exec NoneHolder NoneHolder s = Some (Inr True, s)
   \<and> Equal exec (Holder o1 (ClassInstance i)) rhs s =
        (case ClassInstance_Call exec i ''__eq__'' [rhs] s of
           None \<Rightarrow> None
         | Some (Inl e, s') \<Rightarrow> Some (Inl e, s')
         | Some (Inr r, s') \<Rightarrow> Some (Inr (IsTrue r), s'))
   \<and> ((TryAs_Number lhs = None \<or> TryAs_Number rhs = None) \<longrightarrow>
       (TryAs_String lhs = None \<or> TryAs_String rhs = None) \<longrightarrow>
       (TryAs_Bool lhs = None \<or> TryAs_Bool rhs = None) \<longrightarrow>
       TryAs_ClassInstance lhs = None \<longrightarrow>
       (lhs \<noteq> NoneHolder \<or> rhs \<noteq> NoneHolder) \<longrightarrow>
       Equal exec lhs rhs s
         = Some (Inl (RuntimeError ''Cannot compare objects for equality''), s))"
proof (intro conjI impI)
  show "Equal exec (Holder o1 (Number a)) (Holder o2 (Number b)) s = Some (Inr (sint a = sint b), s)"
    by (simp only: Equal_Number sint_eq_iff)
  show "Equal exec (Holder o1 (String x)) (Holder o2 (String y)) s = Some (Inr (x = y), s)"
    by (rule Equal_String)
  show "Equal exec (Holder o1 (Bool p)) (Holder o2 (Bool q)) s = Some (Inr (p = q), s)"
    by (rule Equal_Bool)
  show "Equal exec NoneHolder NoneHolder s = Some (Inr True, s)"
    by (rule Equal_None)
  show "Equal exec (Holder o1 (ClassInstance i)) rhs s =
        (case ClassInstance_Call exec i ''__eq__'' [rhs] s of
           None \<Rightarrow> None
         | Some (Inl e, s') \<Rightarrow> Some (Inl e, s')
         | Some (Inr r, s') \<Rightarrow> Some (Inr (IsTrue r), s'))"
    by (rule Equal_ClassInstance)
next
  assume "TryAs_Number lhs = None \<or> TryAs_Number rhs = None"
    "TryAs_String lhs = None \<or> TryAs_String rhs = None"
    "TryAs_Bool lhs = None \<or> TryAs_Bool rhs = None"
    "TryAs_ClassInstance lhs = None"
    "lhs \<noteq> NoneHolder \<or> rhs \<noteq> NoneHolder"
  then show "Equal exec lhs rhs s
         = Some (Inl (RuntimeError ''Cannot compare objects for equality''), s)"
    by (rule Equal_otherwise)
qed

theorem C3_equal_witness:
  "Equal (Execute 3) (Holder Owning (Number 1)) (Holder Owning (String ''a'')) state_B
     = Some (Inl (RuntimeError ''Cannot compare objects for equality''), state_B)
   \<and> Equal (Execute 3) (Holder Owning (Number 1)) (Holder NonOwning (Number 1)) state_B
     = Some (Inr True, state_B)
   \<and> Equal (Execute 3) (Holder NonOwning (ClassInstance 0)) (Holder Owning (Number 5)) state_B
     = Some (Inl (RuntimeError ''Error calling method __eq__''), state_B)"
proof -
  note t = C3_equal[where exec = "Execute 3" and a = 1 and b = 1 and s = state_B
      and lhs = "Holder Owning (Number 1)" and rhs = "Holder Owning (String ''a'')"]
  have A: "Equal (Execute 3) (Holder Owning (Number 1)) (Holder Owning (String ''a'')) state_B
     = Some (Inl (RuntimeError ''Cannot compare objects for equality''), state_B)"
    by (rule t[THEN conjunct2, THEN conjunct2, THEN conjunct2, THEN conjunct2, THEN conjunct2,
          rule_format])
       (simp_all add: TryAs_Number_def TryAs_String_def TryAs_Bool_def TryAs_ClassInstance_def)
  have B: "Equal (Execute 3) (Holder Owning (Number 1)) (Holder NonOwning (Number 1)) state_B
     = Some (Inr True, state_B)"
    using t[THEN conjunct1, of Owning NonOwning] by simp
  have C: "Equal (Execute 3) (Holder NonOwning (ClassInstance 0)) (Holder Owning (Number 5)) state_B
     = Some (Inl (RuntimeError ''Error calling method __eq__''), state_B)"
    by (simp add: Equal_ClassInstance ClassInstance_Call_eq state_B_def class_B_def class_A_def)
  from A B C show ?thesis by simp
qed

subsection \<open>The derived comparisons\<close>

lemma NotEqual_eq:
  "Equal exec lhs rhs s = Some (Inr e, s') \<Longrightarrow> NotEqual exec lhs rhs s = Some (Inr (\<not> e), s')"
  by (simp add: NotEqual_def and_then_s_def)

lemma Greater_eq:
  "Less exec lhs rhs s = Some (Inr l, s1) \<Longrightarrow> Equal exec lhs rhs s1 = Some (Inr e, s2) \<Longrightarrow>
   Greater exec lhs rhs s = Some (Inr (\<not> (l \<or> e)), if l then s1 else s2)"
  by (simp add: Greater_def and_then_s_def)

lemma LessOrEqual_eq:
  "Greater exec lhs rhs s = Some (Inr g, s') \<Longrightarrow> LessOrEqual exec lhs rhs s = Some (Inr (\<not> g), s')"
  by (simp add: LessOrEqual_def and_then_s_def)

lemma GreaterOrEqual_eq:
  "Less exec lhs rhs s = Some (Inr l, s') \<Longrightarrow> GreaterOrEqual exec lhs rhs s = Some (Inr (\<not> l), s')"
  by (simp add: GreaterOrEqual_def and_then_s_def)

lemma Less_Number:
  "Less exec (Holder o1 (Number a)) (Holder o2 (Number b)) s = Some (Inr (sint a < sint b), s)"
  by (simp add: Less_def TryAs_Number_def)

lemma LessOrEqual_Number:
  "LessOrEqual exec (Holder o1 (Number a)) (Holder o2 (Number b)) s = Some (Inr (sint a \<le> sint b), s)"
proof -
  have l: "Less exec (Holder o1 (Number a)) (Holder o2 (Number b)) s
      = Some (Inr (sint a < sint b), s)"
    by (rule Less_Number)
  have e: "Equal exec (Holder o1 (Number a)) (Holder o2 (Number b)) s = Some (Inr (a = b), s)"
    by (rule Equal_Number)
  have "Greater exec (Holder o1 (Number a)) (Holder o2 (Number b)) s
      = Some (Inr (\<not> (sint a < sint b \<or> a = b)), s)"
    using Greater_eq[OF l e] by simp
  then have "LessOrEqual exec (Holder o1 (Number a)) (Holder o2 (Number b)) s
      = Some (Inr (\<not> \<not> (sint a < sint b \<or> a = b)), s)"
    by (rule LessOrEqual_eq)
  moreover have "(sint a < sint b \<or> a = b) = (sint a \<le> sint b)"
    using sint_eq_iff[of a b] by auto
  ultimately show ?thesis by simp
qed

lemma pure_comparison:
  assumes "TryAs_ClassInstance lhs = None"
  shows "Less exec lhs rhs s = Some (r, s') \<Longrightarrow> s' = s"
    and "Equal exec lhs rhs s = Some (r, s') \<Longrightarrow> s' = s"
  using assms
  by (auto simp: Less_def Equal_def split: option.splits if_splits)

lemma Greater_short_circuit:
  "Less exec lhs rhs s = Some (Inr True, s1) \<Longrightarrow> Greater exec lhs rhs s = Some (Inr False, s1)"
  by (simp add: Greater_def and_then_s_def)

lemma fuel_5: "Execute 5 = Execute (Suc (Suc (Suc (Suc (Suc 0)))))"
  by (simp add: eval_nat_numeral)

lemmas run_Cmp = fuel_5 Statement_Execute_def and_then_def and_then_s_def
  ClassInstance_Call_eq class_Cmp_def
  MethodBody_Execute_def Return_Execute_def FieldAssignment_Execute_def TryAs_ClassInstance_def
  drop_closure_def set_field_def IsTrue_def TryAs_Number_def TryAs_Bool_def TryAs_String_def

lemma Less_Cmp:
  "Less (Execute 5) (Holder NonOwning (ClassInstance 0)) (Holder Owning (Number 5)) state_Cmp
     = Some (Inr False, state_Cmp_seen)"
  by (simp add: Less_def run_Cmp state_Cmp_def state_Cmp_seen_def)

lemma Equal_Cmp:
  "Equal (Execute 5) (Holder NonOwning (ClassInstance 0)) (Holder Owning (Number 5)) state_Cmp
     = Some (Inr False, state_Cmp)"
  by (simp add: Equal_ClassInstance run_Cmp state_Cmp_def)

lemma Equal_Cmp_seen:
  "Equal (Execute 5) (Holder NonOwning (ClassInstance 0)) (Holder Owning (Number 5)) state_Cmp_seen
     = Some (Inr True, state_Cmp_seen)"
  by (simp add: Equal_ClassInstance run_Cmp state_Cmp_def state_Cmp_seen_def)

text \<open>
  Claim C4, amended. The claim relates \<^verbatim>\<open>Greater\<close> to \<^verbatim>\<open>Less\<close> and \<^verbatim>\<open>Equal\<close> on the same
  holders and context. That fails when the left holder is a class instance whose
  \<open>__lt__\<close> writes what its \<open>__eq__\<close> reads (\<open>C4_same_state_counterexample\<close> below):
  \<^verbatim>\<open>Greater\<close> calls \<^verbatim>\<open>Equal\<close> after \<^verbatim>\<open>Less\<close>. What holds: where \<^verbatim>\<open>Equal\<close> returns \<open>e\<close>,
  \<^verbatim>\<open>NotEqual\<close> returns \<open>\<not> e\<close>. Where \<^verbatim>\<open>Less\<close> returns \<open>l\<close> and \<^verbatim>\<open>Equal\<close>, in the state that
  \<^verbatim>\<open>Less\<close> has left, returns \<open>e\<close>, \<^verbatim>\<open>Greater\<close> returns \<open>\<not> (l \<or> e)\<close>; when the left holder
  is not a class instance no comparison changes the state, and this holds with \<^verbatim>\<open>Less\<close>
  and \<^verbatim>\<open>Equal\<close> taken in the same state, as the claim has it. Where \<^verbatim>\<open>Greater\<close> returns
  \<open>g\<close>, \<^verbatim>\<open>LessOrEqual\<close> returns \<open>\<not> g\<close>; where \<^verbatim>\<open>Less\<close> returns \<open>l\<close>, \<^verbatim>\<open>GreaterOrEqual\<close>
  returns \<open>\<not> l\<close>. For two numbers \<^verbatim>\<open>LessOrEqual\<close> is \<open>\<le>\<close> on their signed values. Where
  \<^verbatim>\<open>Less\<close> returns true, \<^verbatim>\<open>Greater\<close> returns false without calling \<^verbatim>\<open>Equal\<close>.
\<close>

theorem C4_derived_comparators:
  "(Equal exec lhs rhs s = Some (Inr e, s') \<longrightarrow>
      NotEqual exec lhs rhs s = Some (Inr (\<not> e), s'))
   \<and> (Less exec lhs rhs s = Some (Inr l, s1) \<longrightarrow> Equal exec lhs rhs s1 = Some (Inr e, s2) \<longrightarrow>
      Greater exec lhs rhs s = Some (Inr (\<not> (l \<or> e)), if l then s1 else s2))
   \<and> (TryAs_ClassInstance lhs = None \<longrightarrow>
      Less exec lhs rhs s = Some (Inr l, s1) \<longrightarrow> Equal exec lhs rhs s = Some (Inr e, s2) \<longrightarrow>
      Greater exec lhs rhs s = Some (Inr (\<not> (l \<or> e)), s))
   \<and> (Greater exec lhs rhs s = Some (Inr g, s') \<longrightarrow>
      LessOrEqual exec lhs rhs s = Some (Inr (\<not> g), s'))
   \<and> (Less exec lhs rhs s = Some (Inr l, s') \<longrightarrow>
      GreaterOrEqual exec lhs rhs s = Some (Inr (\<not> l), s'))
   \<and> LessOrEqual exec (Holder o1 (Number a)) (Holder o2 (Number b)) s
        = Some (Inr (sint a \<le> sint b), s)
   \<and> (Less exec lhs rhs s = Some (Inr True, s1) \<longrightarrow>
      Greater exec lhs rhs s = Some (Inr False, s1))"
proof (intro conjI impI)
  assume "TryAs_ClassInstance lhs = None" and l: "Less exec lhs rhs s = Some (Inr l, s1)"
    and e: "Equal exec lhs rhs s = Some (Inr e, s2)"
  then have "s1 = s" "s2 = s" by (auto dest: pure_comparison)
  with Greater_eq[of exec lhs rhs s l s1 e s2] l e
  show "Greater exec lhs rhs s = Some (Inr (\<not> (l \<or> e)), s)" by simp
qed (simp_all add: NotEqual_eq Greater_eq LessOrEqual_eq GreaterOrEqual_eq LessOrEqual_Number
      Greater_short_circuit)

theorem C4_derived_comparators_witness:
  "NotEqual (Execute 3) (Holder Owning (Number 3)) (Holder Owning (Number 5)) state_B
     = Some (Inr True, state_B)
   \<and> Greater (Execute 3) (Holder Owning (Number 3)) (Holder Owning (Number 5)) state_B
     = Some (Inr False, state_B)
   \<and> LessOrEqual (Execute 3) (Holder Owning (Number 3)) (Holder Owning (Number 5)) state_B
     = Some (Inr True, state_B)
   \<and> GreaterOrEqual (Execute 3) (Holder Owning (Number 3)) (Holder Owning (Number 5)) state_B
     = Some (Inr False, state_B)
   \<and> Greater (Execute 5) (Holder NonOwning (ClassInstance 0)) (Holder Owning (Number 5)) state_Cmp
     = Some (Inr False, state_Cmp_seen)
   \<and> LessOrEqual (Execute 5) (Holder NonOwning (ClassInstance 0)) (Holder Owning (Number 5))
        state_Cmp
     = Some (Inr True, state_Cmp_seen)"
proof -
  let ?l = "Holder Owning (Number 3)" and ?r = "Holder Owning (Number 5)"
  let ?i = "Holder NonOwning (ClassInstance 0)"
  have e: "Equal (Execute 3) ?l ?r state_B = Some (Inr False, state_B)"
    by (simp add: Equal_Number)
  have l: "Less (Execute 3) ?l ?r state_B = Some (Inr True, state_B)"
    by (simp add: Less_Number)
  note t = C4_derived_comparators[where exec = "Execute 3" and lhs = ?l and rhs = ?r
      and s = state_B and s' = state_B and ?s1.0 = state_B and ?s2.0 = state_B
      and e = False and l = True and g = False]
  note u = C4_derived_comparators[where exec = "Execute 5" and lhs = ?i and rhs = ?r
      and s = state_Cmp and s' = state_Cmp_seen and ?s1.0 = state_Cmp_seen
      and ?s2.0 = state_Cmp_seen and e = True and l = False and g = False]
  have A: "NotEqual (Execute 3) ?l ?r state_B = Some (Inr True, state_B)"
    using t[THEN conjunct1, rule_format, OF e] by simp
  have B: "Greater (Execute 3) ?l ?r state_B = Some (Inr False, state_B)"
    using t[THEN conjunct2, THEN conjunct1, rule_format, OF l e] by simp
  have C: "LessOrEqual (Execute 3) ?l ?r state_B = Some (Inr True, state_B)"
    using t[THEN conjunct2, THEN conjunct2, THEN conjunct2, THEN conjunct1, rule_format, OF B]
    by simp
  have D: "GreaterOrEqual (Execute 3) ?l ?r state_B = Some (Inr False, state_B)"
    using t[THEN conjunct2, THEN conjunct2, THEN conjunct2, THEN conjunct2, THEN conjunct1,
        rule_format, OF l]
    by simp
  have p: "TryAs_ClassInstance ?l = None"
    by (simp add: TryAs_ClassInstance_def)
  have B': "Greater (Execute 3) ?l ?r state_B = Some (Inr (\<not> (True \<or> False)), state_B)"
    by (rule t[THEN conjunct2, THEN conjunct2, THEN conjunct1, rule_format, OF p l e])
  have B'': "Greater (Execute 3) ?l ?r state_B = Some (Inr False, state_B)"
    by (rule t[THEN conjunct2, THEN conjunct2, THEN conjunct2, THEN conjunct2, THEN conjunct2,
          THEN conjunct2, rule_format, OF l])
  have G: "Greater (Execute 5) ?i ?r state_Cmp = Some (Inr False, state_Cmp_seen)"
    using u[THEN conjunct2, THEN conjunct1, rule_format, OF Less_Cmp Equal_Cmp_seen] by simp
  have L: "LessOrEqual (Execute 5) ?i ?r state_Cmp = Some (Inr True, state_Cmp_seen)"
    using u[THEN conjunct2, THEN conjunct2, THEN conjunct2, THEN conjunct1, rule_format, OF G]
    by simp
  from A B B' B'' C D G L show ?thesis by simp
qed

text \<open>
  The claim as it stands, at the instance of \<open>Cmp\<close>: from the state \<open>state_Cmp\<close> both
  \<^verbatim>\<open>Less\<close> and \<^verbatim>\<open>Equal\<close> return false, and \<^verbatim>\<open>Greater\<close> returns false, not
  \<open>\<not> (False \<or> False)\<close>: it has called \<^verbatim>\<open>Equal\<close> after \<open>__lt__\<close> has stored 5 in \<open>seen\<close>.
\<close>

theorem C4_same_state_counterexample:
  "Less (Execute 5) (Holder NonOwning (ClassInstance 0)) (Holder Owning (Number 5)) state_Cmp
     = Some (Inr False, state_Cmp_seen)
   \<and> Equal (Execute 5) (Holder NonOwning (ClassInstance 0)) (Holder Owning (Number 5)) state_Cmp
     = Some (Inr False, state_Cmp)
   \<and> Greater (Execute 5) (Holder NonOwning (ClassInstance 0)) (Holder Owning (Number 5)) state_Cmp
     = Some (Inr False, state_Cmp_seen)
   \<and> map_option fst
        (Greater (Execute 5) (Holder NonOwning (ClassInstance 0)) (Holder Owning (Number 5))
           state_Cmp)
     \<noteq> Some (Inr (\<not> (False \<or> False)))"
proof -
  have g: "Greater (Execute 5) (Holder NonOwning (ClassInstance 0)) (Holder Owning (Number 5))
      state_Cmp = Some (Inr False, state_Cmp_seen)"
    using Greater_eq[OF Less_Cmp Equal_Cmp_seen] by simp
  with Less_Cmp Equal_Cmp show ?thesis by simp
qed

subsection \<open>The logical conjunction\<close>

lemma And_Execute_short_circuit:
  "exec lhs closure s = Some (Inr v, c1, s1) \<Longrightarrow> \<not> IsTrue v \<Longrightarrow>
   And_Execute exec lhs rhs closure s = Some (Inr (Holder Owning (Bool False)), c1, s1)"
  by (simp add: And_Execute_def and_then_def Own_def)

text \<open>
  Claim C8. When the left operand of an \<^verbatim>\<open>And\<close> node evaluates to a holder that is not
  true, the node returns an owning \<open>Bool(false)\<close> with the closure and the state that
  the left operand has left: the right operand, whatever it is, is not executed.
\<close>

theorem C8_and_short_circuit:
  "(exec lhs closure s = Some (Inr v, c1, s1) \<longrightarrow> \<not> IsTrue v \<longrightarrow>
      And_Execute exec lhs rhs closure s = Some (Inr (Holder Owning (Bool False)), c1, s1))
   \<and> (Execute n lhs closure s = Some (Inr v, c1, s1) \<longrightarrow> \<not> IsTrue v \<longrightarrow>
      Execute (Suc n) (And lhs rhs) closure s = Some (Inr (Holder Owning (Bool False)), c1, s1))"
  by (simp add: And_Execute_short_circuit Statement_Execute_def)

theorem C8_and_short_circuit_witness:
  "Execute 3 (And (VariableValue [''x'']) (Print [VariableValue [''y'']])) closure_xy state_B
     = Some (Inr (Holder Owning (Bool False)), closure_xy, state_B)
   \<and> map_option (\<lambda>(r, c, s). output_stream s)
        (Execute 3 (Print [VariableValue [''y'']]) closure_xy state_B) = Some ''7\<newline>''"
proof -
  have l: "Execute 2 (VariableValue [''x'']) closure_xy state_B
      = Some (Inr (Holder Owning (Number 0)), closure_xy, state_B)"
    by (simp add: eval_nat_numeral Statement_Execute_def closure_xy_def)
  have f: "\<not> IsTrue (Holder Owning (Number 0))"
    by (simp add: IsTrue_def TryAs_Number_def)
  have A: "Execute (Suc 2) (And (VariableValue [''x'']) (Print [VariableValue [''y'']])) closure_xy state_B
     = Some (Inr (Holder Owning (Bool False)), closure_xy, state_B)"
    by (rule C8_and_short_circuit[THEN conjunct2, rule_format, OF l f])
  have A': "And_Execute (Execute 2) (VariableValue [''x'']) (Print [VariableValue [''y'']])
              closure_xy state_B
     = Some (Inr (Holder Owning (Bool False)), closure_xy, state_B)"
    by (rule C8_and_short_circuit[where exec = "Execute 2", THEN conjunct1, rule_format, OF l f])
  have B: "map_option (\<lambda>(r, c, s). output_stream s)
        (Execute 3 (Print [VariableValue [''y'']]) closure_xy state_B) = Some ''7\<newline>''"
    by code_simp
  from A A' B show ?thesis by (simp add: eval_nat_numeral)
qed

subsection \<open>Creating an instance\<close>

lemma HasMethod_class_methods:
  "HasMethod inst method n \<Longrightarrow>
   \<exists>m \<in> set (class_methods (cls_m inst)). name m = method \<and> length (formal_params m) = n"
  by (auto simp: HasMethod_def GetMethod_find find_Some_iff split: option.splits)

lemma NewInstance_Execute_no_init:
  "\<not> HasMethod (heap s class_instance) INIT_METHOD (length args) \<Longrightarrow>
   NewInstance_Execute exec class_instance args closure s
     = Some (Inr (Holder NonOwning (ClassInstance class_instance)), closure, s)"
  by (simp add: NewInstance_Execute_def Share_def)

text \<open>
  Claim C9. When no method \<open>__init__\<close> of the class or of its ancestors has as many
  parameters as the \<^verbatim>\<open>NewInstance\<close> node has arguments, executing the node returns the
  non-owning holder of its instance and leaves the closure and the state as they are:
  none of the arguments is executed, whatever executing them would do.
\<close>

theorem C9_new_instance_without_init:
  assumes "\<forall>m \<in> set (class_methods (cls_m (heap s class_instance))).
             name m = INIT_METHOD \<longrightarrow> length (formal_params m) \<noteq> length args"
  shows "NewInstance_Execute exec class_instance args closure s
           = Some (Inr (Holder NonOwning (ClassInstance class_instance)), closure, s)
       \<and> Execute (Suc n) (NewInstance class_instance args) closure s
           = Some (Inr (Holder NonOwning (ClassInstance class_instance)), closure, s)"
proof -
  from assms have "\<not> HasMethod (heap s class_instance) INIT_METHOD (length args)"
    by (auto dest: HasMethod_class_methods)
  then show ?thesis
    by (simp add: NewInstance_Execute_no_init Statement_Execute_def)
qed

theorem C9_new_instance_without_init_witness:
  "Execute 1 new_Counter closure_xy state_Counter
   = Some (Inr (Holder NonOwning (ClassInstance 0)), closure_xy, state_Counter)"
proof -
  have "\<forall>m \<in> set (class_methods (cls_m (heap state_Counter 0))).
          name m = INIT_METHOD \<longrightarrow>
          length (formal_params m)
            \<noteq> length [Print [VariableValue [''y'']], VariableValue [''missing'']]"
    by (simp add: state_Counter_def class_Counter_def INIT_METHOD_def)
  from C9_new_instance_without_init[OF this, of "Execute 0" closure_xy 0]
  show ?thesis by (simp add: new_Counter_def)
qed

lemma NewInstance_Execute_result:
  "NewInstance_Execute exec a args closure s = Some (Inr h, c', s') \<Longrightarrow>
   h = Holder NonOwning (ClassInstance a)"
  by (auto simp: NewInstance_Execute_def and_then_def in_closure_def Share_def
           split: if_splits option.splits sum.splits prod.splits)

lemma NewInstance_Execute_init:
  "HasMethod (heap s a) INIT_METHOD (length args) \<Longrightarrow>
   NewInstance_Execute exec a args closure s =
     (case Execute_args exec args [] closure s of
        None \<Rightarrow> None
      | Some (Inl e, c1, s1) \<Rightarrow> Some (Inl e, c1, s1)
      | Some (Inr actual_args, c1, s1) \<Rightarrow>
          (case ClassInstance_Call exec a INIT_METHOD actual_args s1 of
             None \<Rightarrow> None
           | Some (Inl e, s2) \<Rightarrow> Some (Inl e, c1, s2)
           | Some (Inr r, s2) \<Rightarrow> Some (Inr (Holder NonOwning (ClassInstance a)), c1, s2)))"
  by (simp add: NewInstance_Execute_def and_then_def in_closure_def Share_def
           split: option.splits sum.splits prod.splits)

text \<open>
  Claim C10. Whenever a \<^verbatim>\<open>NewInstance\<close> node returns, it returns the non-owning holder
  of the one instance that the node holds: any two executions return the same holder.
  Without a matching \<open>__init__\<close> the state is left as it is, so the fields that the
  instance has are still there. With a matching \<open>__init__\<close> the arguments are evaluated
  and the method is called on that same instance, in the state that the arguments have
  left: nothing resets its fields.
\<close>

theorem C10_new_instance_aliases:
  "(Execute (Suc n) (NewInstance a args) closure s = Some (Inr h, c', s') \<longrightarrow>
      h = Holder NonOwning (ClassInstance a))
   \<and> (Execute (Suc n) (NewInstance a args) closure s = Some (Inr h, c', s') \<longrightarrow>
      Execute (Suc n2) (NewInstance a args) closure2 t = Some (Inr h2, c2', t') \<longrightarrow>
      h2 = h \<and> TryAs_ClassInstance h = Some a)
   \<and> (\<not> HasMethod (heap s a) INIT_METHOD (length args) \<longrightarrow>
      Execute (Suc n) (NewInstance a args) closure s
        = Some (Inr (Holder NonOwning (ClassInstance a)), closure, s))
   \<and> (HasMethod (heap s a) INIT_METHOD (length args) \<longrightarrow>
      Execute (Suc n) (NewInstance a args) closure s =
        (case Execute_args (Execute n) args [] closure s of
           None \<Rightarrow> None
         | Some (Inl e, c1, s1) \<Rightarrow> Some (Inl e, c1, s1)
         | Some (Inr actual_args, c1, s1) \<Rightarrow>
             (case ClassInstance_Call (Execute n) a INIT_METHOD actual_args s1 of
                None \<Rightarrow> None
              | Some (Inl e, s2) \<Rightarrow> Some (Inl e, c1, s2)
              | Some (Inr r, s2) \<Rightarrow> Some (Inr (Holder NonOwning (ClassInstance a)), c1, s2))))"
proof (intro conjI impI)
  assume "Execute (Suc n) (NewInstance a args) closure s = Some (Inr h, c', s')"
  then show "h = Holder NonOwning (ClassInstance a)"
    by (simp add: Statement_Execute_def NewInstance_Execute_result)
next
  assume "Execute (Suc n) (NewInstance a args) closure s = Some (Inr h, c', s')"
    and "Execute (Suc n2) (NewInstance a args) closure2 t = Some (Inr h2, c2', t')"
  then have "h = Holder NonOwning (ClassInstance a)" "h2 = Holder NonOwning (ClassInstance a)"
    by (simp_all add: Statement_Execute_def NewInstance_Execute_result)
  then show "h2 = h" "TryAs_ClassInstance h = Some a"
    by (simp_all add: TryAs_ClassInstance_def)
next
  assume "\<not> HasMethod (heap s a) INIT_METHOD (length args)"
  then show "Execute (Suc n) (NewInstance a args) closure s
        = Some (Inr (Holder NonOwning (ClassInstance a)), closure, s)"
    by (simp add: Statement_Execute_def NewInstance_Execute_no_init)
next
  assume "HasMethod (heap s a) INIT_METHOD (length args)"
  then show "Execute (Suc n) (NewInstance a args) closure s =
        (case Execute_args (Execute n) args [] closure s of
           None \<Rightarrow> None
         | Some (Inl e, c1, s1) \<Rightarrow> Some (Inl e, c1, s1)
         | Some (Inr actual_args, c1, s1) \<Rightarrow>
             (case ClassInstance_Call (Execute n) a INIT_METHOD actual_args s1 of
                None \<Rightarrow> None
              | Some (Inl e, s2) \<Rightarrow> Some (Inl e, c1, s2)
              | Some (Inr r, s2) \<Rightarrow> Some (Inr (Holder NonOwning (ClassInstance a)), c1, s2)))"
    by (simp add: Statement_Execute_def NewInstance_Execute_init)
qed

theorem C10_new_instance_aliases_witness:
  "Execute 4 (NewInstance 0 [VariableValue [''y'']]) closure_xy state_Counter
     = Some (Inr (Holder NonOwning (ClassInstance 0)), closure_xy,
             set_field 0 ''last'' (Holder Owning (Number 7)) state_Counter)
   \<and> Execute 4 (NewInstance 0 [VariableValue [''y'']]) closure_xy
        (set_field 0 ''mark'' (Holder Owning (Number 1)) state_Counter)
     = Some (Inr (Holder NonOwning (ClassInstance 0)), closure_xy,
             set_field 0 ''last'' (Holder Owning (Number 7))
               (set_field 0 ''mark'' (Holder Owning (Number 1)) state_Counter))
   \<and> Execute 1 (NewInstance 0 []) closure_xy state_Counter
     = Some (Inr (Holder NonOwning (ClassInstance 0)), closure_xy, state_Counter)
   \<and> map_option (\<lambda>(r, c, s). (r, c ''p'', c ''q'', closure_m (heap s 0) ''mark'',
                               closure_m (heap s 0) ''last''))
        (Execute 6 twice closure_xy state_Counter)
     = Some (Inr NoneHolder, Some (Holder NonOwning (ClassInstance 0)),
             Some (Holder NonOwning (ClassInstance 0)), Some (Holder Owning (Number 7)),
             Some (Holder Owning (Number 0)))"
proof -
  let ?new = "NewInstance 0 [VariableValue [''y'']]"
  let ?marked = "set_field 0 ''mark'' (Holder Owning (Number 1)) state_Counter"
  note defs = eval_nat_numeral Statement_Execute_def and_then_def closure_xy_def
          ClassInstance_Call_eq state_Counter_def class_Counter_def INIT_METHOD_def
          MethodBody_Execute_def FieldAssignment_Execute_def TryAs_ClassInstance_def
          drop_closure_def set_field_def
  have h: "HasMethod (heap state_Counter 0) INIT_METHOD (length [VariableValue [''y'']])"
    by (simp add: HasMethod_def state_Counter_def class_Counter_def INIT_METHOD_def)
  have h': "HasMethod (heap ?marked 0) INIT_METHOD (length [VariableValue [''y'']])"
    by (simp add: HasMethod_def state_Counter_def class_Counter_def INIT_METHOD_def
          set_field_def)
  have n: "\<not> HasMethod (heap state_Counter 0) INIT_METHOD (length ([] :: Statement list))"
    by (simp add: HasMethod_def state_Counter_def class_Counter_def INIT_METHOD_def)
  have A: "Execute (Suc 3) ?new closure_xy state_Counter
     = Some (Inr (Holder NonOwning (ClassInstance 0)), closure_xy,
             set_field 0 ''last'' (Holder Owning (Number 7)) state_Counter)"
    unfolding C10_new_instance_aliases[THEN conjunct2, THEN conjunct2, THEN conjunct2,
        rule_format, OF h]
    by (simp add: defs)
  have A': "Execute (Suc 3) ?new closure_xy ?marked
     = Some (Inr (Holder NonOwning (ClassInstance 0)), closure_xy,
             set_field 0 ''last'' (Holder Owning (Number 7)) ?marked)"
    unfolding C10_new_instance_aliases[THEN conjunct2, THEN conjunct2, THEN conjunct2,
        rule_format, OF h']
    by (simp add: defs)
  have same: "Holder NonOwning (ClassInstance 0) = Holder NonOwning (ClassInstance 0)
      \<and> TryAs_ClassInstance (Holder NonOwning (ClassInstance 0)) = Some 0"
    by (rule C10_new_instance_aliases[THEN conjunct2, THEN conjunct1, rule_format, OF A A'])
  have first: "Holder NonOwning (ClassInstance 0) = Holder NonOwning (ClassInstance 0)"
    by (rule C10_new_instance_aliases[THEN conjunct1, rule_format, OF A])
  have N: "Execute (Suc 0) (NewInstance 0 []) closure_xy state_Counter
     = Some (Inr (Holder NonOwning (ClassInstance 0)), closure_xy, state_Counter)"
    by (rule C10_new_instance_aliases[THEN conjunct2, THEN conjunct2, THEN conjunct1,
          rule_format, OF n])
  have B: "map_option (\<lambda>(r, c, s). (r, c ''p'', c ''q'', closure_m (heap s 0) ''mark'',
                               closure_m (heap s 0) ''last''))
        (Execute 6 twice closure_xy state_Counter)
     = Some (Inr NoneHolder, Some (Holder NonOwning (ClassInstance 0)),
             Some (Holder NonOwning (ClassInstance 0)), Some (Holder Owning (Number 7)),
             Some (Holder Owning (Number 0)))"
    by code_simp
  from A A' N B same first show ?thesis by (simp add: eval_nat_numeral)
qed

end
